theory Spec2Isabelle
  imports Main "HOL-Library.Word" "HOL-Library.AList"
begin

section \<open>JavaScript values used by the upload handler\<close>

text \<open>
  The upload handler reads numbers out of header strings with \<open>Number(x)\<close>, writes them
  back into file names with template literals, and splits those names again.
  \<^item> What \<open>Number\<close> reads from a string is kept as a \<open>jsnum\<close>: \<open>NaN\<close> when the
    string cannot begin a numeric literal, the integer when the string is one of magnitude
    at most \<open>2 ^ 53\<close> (doubles are exact there and print as their decimal digits), and
    the string itself (\<open>Other\<close>) in every other case: a fraction, an exponent, a radix
    prefix, an infinity, a longer integer, or a malformed literal.
  \<^item> The double that stands behind a \<open>jsnum\<close> is a \<open>jsval\<close>: not a number, one
    of the infinities, or a finite double, which is an integer divided by a power of two:
    \<open>VNum m d\<close> stands for \<open>m / 2 ^ d\<close>.  For \<open>Other s\<close> the environment says
    which double JavaScript reads from \<open>s\<close> and how it prints it.
  \<^item> \<open>undefined\<close> is \<open>None\<close> of an option type.
  \<^item> A byte is an \<open>8 word\<close>, a \<open>Buffer\<close> or \<open>Uint8Array\<close> a list of bytes.
\<close>

type_synonym byte = "8 word"
type_synonym bytes = "byte list"

datatype jsnum = NaN | Num int | Other string

datatype jsval = VNaN | VNum int nat | VPosInf | VNegInf

datatype exn = TypeError | RangeError | ENOENT | SharpError | PathError

subsection \<open>Strings\<close>

definition startsWith :: "string \<Rightarrow> string \<Rightarrow> bool" where
  \<comment> \<open>\<open>s.startsWith(p)\<close>\<close>
  "startsWith s p = (take (length p) s = p)"

fun split_chr :: "char \<Rightarrow> string \<Rightarrow> string list" where
  \<comment> \<open>\<open>s.split(c)\<close> for a one-character separator; the result is never empty\<close>
  "split_chr c [] = [[]]"
| "split_chr c (x # xs) =
     (if x = c then [] # split_chr c xs
      else (case split_chr c xs of
              [] \<Rightarrow> [[x]]
            | y # ys \<Rightarrow> (x # y) # ys))"

fun replace_first :: "string \<Rightarrow> string \<Rightarrow> string \<Rightarrow> string" where
  \<comment> \<open>\<open>s.replace(pat, rep)\<close> with a string pattern: the first occurrence only\<close>
  "replace_first pat rep [] = (if pat = [] then rep else [])"
| "replace_first pat rep (x # xs) =
     (if startsWith (x # xs) pat then rep @ drop (length pat) (x # xs)
      else x # replace_first pat rep xs)"

definition upper_chr :: "char \<Rightarrow> char" where
  "upper_chr c =
     (let n = (of_char c :: nat)
      in if 97 \<le> n \<and> n \<le> 122 then char_of (n - 32) else c)"

definition toUpperCase :: "string \<Rightarrow> string" where
  \<comment> \<open>\<open>s.toUpperCase()\<close> on ASCII; JavaScript maps no other character of a header
      value to an ASCII letter that occurs in a format name\<close>
  "toUpperCase s = map upper_chr s"

fun nth_opt :: "'a list \<Rightarrow> nat \<Rightarrow> 'a option" where
  \<comment> \<open>\<open>xs[i]\<close>: \<open>undefined\<close> out of range\<close>
  "nth_opt [] i = None"
| "nth_opt (x # xs) 0 = Some x"
| "nth_opt (x # xs) (Suc i) = nth_opt xs i"

definition truthy_str :: "string option \<Rightarrow> bool" where
  \<comment> \<open>truthiness of a header value: \<open>undefined\<close> and the empty string are falsy\<close>
  "truthy_str h = (case h of None \<Rightarrow> False | Some s \<Rightarrow> s \<noteq> [])"

subsection \<open>Numbers read from strings\<close>

definition is_digit :: "char \<Rightarrow> bool" where
  "is_digit c = (48 \<le> (of_char c :: nat) \<and> (of_char c :: nat) \<le> 57)"

definition digit_chr :: "nat \<Rightarrow> char" where
  "digit_chr d = char_of (48 + d)"

definition digits_value :: "string \<Rightarrow> int" where
  "digits_value s = foldl (\<lambda>a c. 10 * a + (int (of_char c) - 48)) 0 s"

definition is_space :: "char \<Rightarrow> bool" where
  \<comment> \<open>the white space and line terminators of \<open>StringToNumber\<close> that fit in a byte\<close>
  "is_space c = ((of_char c :: nat) \<in> {9, 10, 11, 12, 13, 32, 160})"

definition trim :: "string \<Rightarrow> string" where
  "trim s = rev (dropWhile is_space (rev (dropWhile is_space s)))"

definition safe_digits :: "string \<Rightarrow> bool" where
  \<comment> \<open>a run of decimal digits whose value is at most \<open>2 ^ 53\<close>\<close>
  "safe_digits ds =
     (ds \<noteq> [] \<and> list_all is_digit ds \<and> digits_value ds \<le> 9007199254740992)"

definition may_start_number :: "char \<Rightarrow> bool" where
  \<comment> \<open>the characters a \<open>StringNumericLiteral\<close> can begin with: a digit, a sign, the
      decimal point, and the \<open>I\<close> of \<open>Infinity\<close>\<close>
  "may_start_number c =
     (is_digit c \<or> c = CHR ''+'' \<or> c = CHR ''-'' \<or> c = CHR ''.'' \<or> c = CHR ''I'')"

definition Number_js :: "string \<Rightarrow> jsnum" where
  \<comment> \<open>\<open>Number(s)\<close> for a string: white space is trimmed, the empty string is 0, an
      optionally signed run of decimal digits of value at most \<open>2 ^ 53\<close> is its value, a
      string that cannot begin a numeric literal is \<open>NaN\<close>; what is read from any other
      string is left to the environment\<close>
  "Number_js s =
     (case trim s of
        [] \<Rightarrow> Num 0
      | c # cs \<Rightarrow>
          if c = CHR ''-'' \<and> safe_digits cs then Num (- digits_value cs)
          else if c = CHR ''+'' \<and> safe_digits cs then Num (digits_value cs)
          else if safe_digits (c # cs) then Num (digits_value (c # cs))
          else if may_start_number c then Other s
          else NaN)"

definition Number_undef :: "string option \<Rightarrow> jsnum" where
  \<comment> \<open>\<open>Number(x)\<close> where \<open>x\<close> may be \<open>undefined\<close>\<close>
  "Number_undef x = (case x of None \<Rightarrow> NaN | Some s \<Rightarrow> Number_js s)"

fun show_nat :: "nat \<Rightarrow> string" where
  "show_nat n =
     (if n < 10 then [digit_chr n] else show_nat (n div 10) @ [digit_chr (n mod 10)])"

declare show_nat.simps [simp del]

definition show_int :: "int \<Rightarrow> string" where
  "show_int i = (if i < 0 then CHR ''-'' # show_nat (nat (- i)) else show_nat (nat i))"

definition tmpl_str :: "string option \<Rightarrow> string" where
  \<comment> \<open>a possibly undefined string inside a template literal\<close>
  "tmpl_str x = (case x of None \<Rightarrow> ''undefined'' | Some s \<Rightarrow> s)"

definition trunc :: "int \<Rightarrow> nat \<Rightarrow> int" where
  \<comment> \<open>\<open>ToIntegerOrInfinity\<close> of the finite number \<open>m / 2 ^ d\<close>: the fraction is
      dropped\<close>
  "trunc m d = (if 0 \<le> m then m div 2 ^ d else - ((- m) div 2 ^ d))"

section \<open>Data model\<close>

text \<open>
  The rows of the \<open>User\<close> and \<open>Image\<close> tables (an \<open>Image\<close> row is the File Record of
  an upload), the parts of a multipart request, and the configuration the handler reads.
  A \<open>Date\<close> is its number of milliseconds since the epoch.
\<close>

datatype ImageFormat = UUID | DATE | RANDOM | NAME

record user =
  user_id :: nat
  username :: string
  token :: string
  administrator :: bool
  ratelimit :: "int option"
  domains :: "string list"

record image =
  image_id :: nat
  image_file :: string
  mimetype :: "string option"
  userId :: nat
  embed :: bool
  format :: "ImageFormat option"
  password :: "string option"
  expires_at :: "int option"
  maxViews :: "jsnum option"

record multer_file =
  originalname :: string
  file_mimetype :: string
  file_size :: int
  buffer :: bytes

record request =
  req_method :: string
  headers :: "string \<Rightarrow> string option"
  files :: "multer_file list option"

record config =
  core_https :: bool
  uploader_route :: string
  uploader_length :: nat
  uploader_format_date :: string
  uploader_admin_limit :: int
  uploader_user_limit :: int
  uploader_disabled_extensions :: "string list"
  ratelimit_admin :: int
  ratelimit_user :: int

text \<open>
  The collaborators outside the handler whose results it cannot predict: the expiry
  parser, the random sources, the clock, the password hash and the image encoder.  Each
  random source and the clock take the logical time of the call, so that two calls may
  differ; the encoder fails on bytes it cannot decode and on a quality it does not
  accept.

  The runtime and the file system are part of the environment as well:
  \<^item> \<open>number_other s\<close> is the double that \<open>Number\<close> reads from a string \<open>s\<close> kept
    as \<open>Other s\<close>, and \<open>string_other s\<close> is the text a template literal prints for
    that double;
  \<^item> \<open>max_length\<close> is the length of the longest typed array the runtime allocates;
  \<^item> \<open>name_max\<close> is the number of bytes of the longest file name the file system
    takes;
  \<^item> \<open>readdir_order t\<close> fixes the order in which the directory is listed at the
    logical time \<open>t\<close>: every order is the one of some environment.
\<close>

record env =
  parseExpiry :: "string \<Rightarrow> int option"
  randomChars :: "nat \<Rightarrow> nat \<Rightarrow> string"
  dayjs_format :: "nat \<Rightarrow> string \<Rightarrow> string"
  randomUUID :: "nat \<Rightarrow> string"
  hashPassword :: "nat \<Rightarrow> string \<Rightarrow> string"
  invis_chars :: "nat \<Rightarrow> nat \<Rightarrow> string"
  math_random :: "nat \<Rightarrow> nat"
  date_now :: "nat \<Rightarrow> int"
  sharp_jpeg :: "bytes \<Rightarrow> jsval \<Rightarrow> bytes option"
  number_other :: "string \<Rightarrow> jsval"
  string_other :: "string \<Rightarrow> string"
  max_length :: int
  name_max :: nat
  readdir_order :: "nat \<Rightarrow> nat \<Rightarrow> nat"

text \<open>
  What the handler did to its collaborators, in order: the trace is kept beside the
  state so that the order of the calls can be stated.
\<close>

datatype event =
    Ev_create image
  | Ev_sharp jsval
  | Ev_save string bytes

text \<open>
  The state the handler works on: the two tables, the invisible aliases, the blob store
  (\<open>datasource\<close>), the directory of temporary files that holds the chunks, the logical
  time and the trace.  The temporary directory is a list of named files with distinct
  names and holds no subdirectory; file names are compared byte by byte.

  The model runs one request at a time.  The database and the blob store do what they
  are asked and do not fail; a new record gets the next free identifier.  The file
  system refuses a path it cannot create (see \<open>writeFile\<close> below) and otherwise does
  what it is asked.  The notification sent after an upload and the log lines change
  nothing the handler reads and are left out.
\<close>

record world =
  users :: "user list"
  images :: "image list"
  invisibles :: "(string \<times> nat) list"
  datasource :: "(string \<times> bytes) list"
  tmpdir :: "(string \<times> bytes) list"
  tick :: nat
  events :: "event list"

text \<open>
  The answers of the handler.  \<open>Thrown x\<close> is an exception that leaves the handler.
  \<open>Unmodelled\<close> marks the one situation the model does not follow: a chunk whose
  path climbs out of the temporary directory, where the outcome depends on the rest of
  the file system.
\<close>

datatype response =
    Res_forbid string
  | Res_error string
  | Res_ratelimited int
  | Res_json_files "string list" "int option"
  | Res_json_success
  | Thrown exn
  | Unmodelled

record options =
  expiry :: "int option"
  format_sel :: "ImageFormat option"
  imageCompressionPercent :: "jsnum option"
  fileMaxViews :: "jsnum option"

section \<open>Numbers as the handler uses them\<close>

definition num_val :: "env \<Rightarrow> jsnum \<Rightarrow> jsval" where
  \<comment> \<open>the double behind what \<open>Number\<close> has read\<close>
  "num_val e x =
     (case x of NaN \<Rightarrow> VNaN | Num i \<Rightarrow> VNum i 0 | Other s \<Rightarrow> number_other e s)"

definition tmpl_num :: "env \<Rightarrow> jsnum option \<Rightarrow> string" where
  \<comment> \<open>a number inside a template literal\<close>
  "tmpl_num e x =
     (case x of
        None \<Rightarrow> ''undefined''
      | Some NaN \<Rightarrow> ''NaN''
      | Some (Num i) \<Rightarrow> show_int i
      | Some (Other s) \<Rightarrow> string_other e s)"

definition isNaN :: "env \<Rightarrow> jsnum option \<Rightarrow> bool" where
  \<comment> \<open>\<open>isNaN(x)\<close> where \<open>None\<close> stands for \<open>null\<close>, which converts to 0\<close>
  "isNaN e x = (case x of None \<Rightarrow> False | Some n \<Rightarrow> num_val e n = VNaN)"

definition lt0 :: "env \<Rightarrow> jsnum option \<Rightarrow> bool" where
  \<comment> \<open>\<open>x < 0\<close>; \<open>null\<close> compares as 0, \<open>NaN\<close> compares false\<close>
  "lt0 e x =
     (case x of
        None \<Rightarrow> False
      | Some n \<Rightarrow> (case num_val e n of VNum m d \<Rightarrow> m < 0 | VNegInf \<Rightarrow> True | _ \<Rightarrow> False))"

definition gt100 :: "env \<Rightarrow> jsnum option \<Rightarrow> bool" where
  \<comment> \<open>\<open>x > 100\<close>\<close>
  "gt100 e x =
     (case x of
        None \<Rightarrow> False
      | Some n \<Rightarrow> (case num_val e n of VNum m d \<Rightarrow> 100 * 2 ^ d < m | VPosInf \<Rightarrow> True | _ \<Rightarrow> False))"

definition truthy_num :: "env \<Rightarrow> jsnum option \<Rightarrow> bool" where
  \<comment> \<open>truthiness of a number or \<open>null\<close>: \<open>null\<close>, 0 and \<open>NaN\<close> are falsy\<close>
  "truthy_num e x =
     (case x of
        None \<Rightarrow> False
      | Some n \<Rightarrow> (case num_val e n of VNaN \<Rightarrow> False | VNum m d \<Rightarrow> m \<noteq> 0 | _ \<Rightarrow> True))"

subsection \<open>Typed arrays\<close>

definition array_limit :: "env \<Rightarrow> int" where
  \<comment> \<open>no typed array is longer than \<open>2 ^ 53 - 1\<close>, whatever the runtime\<close>
  "array_limit e = min (max_length e) 9007199254740991"

definition new_Uint8Array :: "env \<Rightarrow> jsnum option \<Rightarrow> exn + bytes" where
  \<comment> \<open>\<open>new Uint8Array(n)\<close>: zero-filled; \<open>undefined\<close> and \<open>NaN\<close> give length 0, the
      fraction of the length is dropped, a negative or infinite length and a length the
      runtime cannot allocate throw\<close>
  "new_Uint8Array e n =
     (case n of
        None \<Rightarrow> Inr []
      | Some x \<Rightarrow>
          (case num_val e x of
             VNaN \<Rightarrow> Inr []
           | VNum m d \<Rightarrow>
               if trunc m d < 0 then Inl RangeError
               else if array_limit e < trunc m d then Inl RangeError
               else Inr (replicate (nat (trunc m d)) 0)
           | VPosInf \<Rightarrow> Inl RangeError
           | VNegInf \<Rightarrow> Inl RangeError))"

definition typed_array_set :: "env \<Rightarrow> bytes \<Rightarrow> bytes \<Rightarrow> jsnum \<Rightarrow> exn + bytes" where
  \<comment> \<open>\<open>target.set(source, offset)\<close>: the offset is converted to an integer (\<open>NaN\<close> to
      0, a fraction is dropped); a negative or infinite offset and a source that does not
      fit throw\<close>
  "typed_array_set e target source offset =
     (case (case num_val e offset of
              VNaN \<Rightarrow> Some 0
            | VNum m d \<Rightarrow> Some (trunc m d)
            | VPosInf \<Rightarrow> None
            | VNegInf \<Rightarrow> None) of
        None \<Rightarrow> Inl RangeError
      | Some k \<Rightarrow>
          if k < 0 then Inl RangeError
          else if length target < length source + nat k then Inl RangeError
          else Inr (take (nat k) target @ source @ drop (nat k + length source) target))"

section \<open>The upload handler\<close>

subsection \<open>Header validation\<close>

definition rawFormat :: "string option \<Rightarrow> string" where
  \<comment> \<open>\<open>((req.headers.format || '') as string).toUpperCase() || 'RANDOM'\<close>\<close>
  "rawFormat h =
     (let u = toUpperCase (case h of None \<Rightarrow> [] | Some s \<Rightarrow> s)
      in if u = [] then ''RANDOM'' else u)"

definition ImageFormat_of :: "string \<Rightarrow> ImageFormat option" where
  \<comment> \<open>\<open>Object.keys(ImageFormat).includes(rawFormat) && ImageFormat[rawFormat]\<close>;
      \<open>None\<close> is the \<open>false\<close> of a name that is no key\<close>
  "ImageFormat_of raw =
     (if raw = ''UUID'' then Some UUID
      else if raw = ''DATE'' then Some DATE
      else if raw = ''RANDOM'' then Some RANDOM
      else if raw = ''NAME'' then Some NAME
      else None)"

definition header_num :: "string option \<Rightarrow> jsnum option" where
  \<comment> \<open>\<open>h ? Number(h) : null\<close>\<close>
  "header_num h =
     (case h of
        None \<Rightarrow> None
      | Some s \<Rightarrow> if s = [] then None else Some (Number_js s))"

definition parse_options :: "env \<Rightarrow> request \<Rightarrow> response + options" where
  "parse_options e req =
     (case (case headers req ''expires-at'' of
              None \<Rightarrow> Inr None
            | Some s \<Rightarrow>
                if s = [] then Inr None
                else (case parseExpiry e s of
                        None \<Rightarrow> Inl (Res_error ''invalid date'')
                      | Some d \<Rightarrow> Inr (Some d))) of
        Inl r \<Rightarrow> Inl r
      | Inr ex \<Rightarrow>
          let fmt = ImageFormat_of (rawFormat (headers req ''format''));
              pct = header_num (headers req ''image-compression-percent'')
          in if isNaN e pct
             then Inl (Res_error ''invalid image compression percent (invalid number)'')
             else if lt0 e pct \<or> gt100 e pct
             then Inl (Res_error ''invalid image compression percent (% < 0 || % > 100)'')
             else
               let mv = header_num (headers req ''max-views'')
               in if isNaN e mv then Inl (Res_error ''invalid max views (invalid number)'')
                  else if lt0 e mv then Inl (Res_error ''invalid max views (max views < 0)'')
                  else Inr \<lparr>expiry = ex, format_sel = fmt,
                            imageCompressionPercent = pct, fileMaxViews = mv\<rparr>)"

subsection \<open>Naming\<close>

definition file_stem :: "env \<Rightarrow> config \<Rightarrow> nat \<Rightarrow> ImageFormat option \<Rightarrow> string \<Rightarrow> string" where
  \<comment> \<open>the \<open>switch (format)\<close> of both paths, at logical time \<open>t\<close>\<close>
  "file_stem e cfg t fmt original =
     (case fmt of
        Some RANDOM \<Rightarrow> randomChars e t (uploader_length cfg)
      | Some DATE \<Rightarrow> dayjs_format e t (uploader_format_date cfg)
      | Some UUID \<Rightarrow> randomUUID e t
      | Some NAME \<Rightarrow> hd (split_chr CHR ''.'' original)
      | None \<Rightarrow> randomChars e t (uploader_length cfg))"

definition extension :: "string \<Rightarrow> string" where
  \<comment> \<open>\<open>name.split('.').pop()\<close>\<close>
  "extension name = last (split_chr CHR ''.'' name)"

definition route_part :: "config \<Rightarrow> string" where
  "route_part cfg = (if uploader_route cfg = ''/'' then [] else uploader_route cfg)"

definition server_url :: "config \<Rightarrow> request \<Rightarrow> string \<Rightarrow> string" where
  "server_url cfg req name =
     (if core_https cfg then ''https'' else ''http'') @ ''://''
       @ tmpl_str (headers req ''host'') @ route_part cfg @ ''/'' @ name"

definition createInvisImage :: "env \<Rightarrow> config \<Rightarrow> nat \<Rightarrow> world \<Rightarrow> string \<times> world" where
  \<comment> \<open>\<open>createInvisImage(zconfig.uploader.length, id)\<close>: stores a fresh alias of the
      record and returns it\<close>
  "createInvisImage e cfg ident w =
     (let a = invis_chars e (tick w) (uploader_length cfg)
      in (a, w\<lparr>invisibles := invisibles w @ [(a, ident)]\<rparr>))"

definition prisma_image_create :: "image \<Rightarrow> world \<Rightarrow> world" where
  "prisma_image_create im w =
     w\<lparr>images := images w @ [im], events := events w @ [Ev_create im]\<rparr>"

definition datasource_save :: "string \<Rightarrow> bytes \<Rightarrow> world \<Rightarrow> world" where
  "datasource_save name data w =
     w\<lparr>datasource := AList.update name data (datasource w),
       events := events w @ [Ev_save name data]\<rparr>"

definition hashed :: "env \<Rightarrow> nat \<Rightarrow> string option \<Rightarrow> string option" where
  \<comment> \<open>\<open>password = null; if (req.headers.password) password = await hashPassword(...)\<close>\<close>
  "hashed e t h =
     (case h of
        None \<Rightarrow> None
      | Some s \<Rightarrow> if s = [] then None else Some (hashPassword e t s))"

definition image_data ::
  "env \<Rightarrow> request \<Rightarrow> user \<Rightarrow> options \<Rightarrow> world \<Rightarrow> string \<Rightarrow> string option \<Rightarrow> image" where
  \<comment> \<open>the \<open>data\<close> of \<open>prisma.image.create\<close> for the stored name \<open>name\<close> and the
      mimetype \<open>mt\<close>, with the identifier the table gives the new row\<close>
  "image_data e req usr opts w name mt =
     \<lparr>image_id = Suc (length (images w)),
      image_file = name,
      mimetype = mt,
      userId = user_id usr,
      embed = truthy_str (headers req ''embed''),
      format = format_sel opts,
      password = hashed e (tick w) (headers req ''password''),
      expires_at = expiry opts,
      maxViews = fileMaxViews opts\<rparr>"

definition create_record :: "env \<Rightarrow> config \<Rightarrow> request \<Rightarrow> image \<Rightarrow> world \<Rightarrow> string \<times> world" where
  \<comment> \<open>\<open>prisma.image.create\<close>, then \<open>if (req.headers.zws) invis = await
      createInvisImage(...)\<close>; the string is \<open>invis ? invis.invis : file.file\<close>\<close>
  "create_record e cfg req im w =
     (let w1 = prisma_image_create im w
      in if truthy_str (headers req ''zws'')
         then createInvisImage e cfg (image_id im) w1
         else (image_file im, w1))"

subsection \<open>The temporary directory\<close>

definition name_bytes :: "string \<Rightarrow> nat" where
  \<comment> \<open>the length of a file name on disk: a character above 127 takes two bytes\<close>
  "name_bytes name = sum_list (map (\<lambda>c. if (of_char c :: nat) < 128 then 1 else 2) name)"

fun resolve :: "string list \<Rightarrow> string list \<Rightarrow> string list option" where
  \<comment> \<open>\<open>join(tmpdir(), name)\<close>, read segment by segment below the temporary
      directory: the stack holds the segments entered so far, the innermost first; the
      result is \<open>None\<close> when \<open>..\<close> climbs out of the temporary directory\<close>
  "resolve stack [] = Some stack"
| "resolve stack (seg # rest) =
     (if seg = [] \<or> seg = ''.'' then resolve stack rest
      else if seg = ''..''
      then (case stack of [] \<Rightarrow> None | d # ds \<Rightarrow> resolve ds rest)
      else resolve (seg # stack) rest)"

definition writeFile ::
  "env \<Rightarrow> string \<Rightarrow> bytes \<Rightarrow> (string \<times> bytes) list \<Rightarrow> response + (string \<times> bytes) list" where
  \<comment> \<open>\<open>writeFile(join(tmpdir(), name), data)\<close>.  A path that comes down to one
      segment creates or replaces the file of that name.  \<open>PathError\<close> stands for the
      errors of a path that cannot be created: a NUL character, a segment that would have
      to be a subdirectory (the temporary directory has none), the directory itself, a
      name longer than the file system takes.\<close>
  "writeFile e name data dir =
     (if CHR 0x00 \<in> set name then Inl (Thrown PathError)
      else
        (case resolve [] (split_chr CHR ''/'' name) of
           None \<Rightarrow> Inl Unmodelled
         | Some [] \<Rightarrow> Inl (Thrown PathError)
         | Some [x] \<Rightarrow>
             if name_bytes x \<le> name_max e then Inr (AList.update x data dir)
             else Inl (Thrown PathError)
         | Some (x # y # zs) \<Rightarrow> Inl (Thrown PathError)))"

definition unlink :: "string \<Rightarrow> (string \<times> bytes) list \<Rightarrow> (string \<times> bytes) list" where
  "unlink name dir = AList.delete name dir"

fun insert_at :: "nat \<Rightarrow> 'a \<Rightarrow> 'a list \<Rightarrow> 'a list" where
  "insert_at 0 x ys = x # ys"
| "insert_at (Suc k) x [] = [x]"
| "insert_at (Suc k) x (y # ys) = y # insert_at k x ys"

fun shuffle :: "(nat \<Rightarrow> nat) \<Rightarrow> 'a list \<Rightarrow> 'a list" where
  \<comment> \<open>the list in another order: each element is put back at the position \<open>pos\<close>
      gives it\<close>
  "shuffle pos [] = []"
| "shuffle pos (x # xs) = insert_at (pos (length xs)) x (shuffle pos xs)"

definition readdir :: "env \<Rightarrow> nat \<Rightarrow> (string \<times> bytes) list \<Rightarrow> (string \<times> bytes) list" where
  \<comment> \<open>the files of the directory in the order \<open>readdir\<close> lists them at time \<open>t\<close>\<close>
  "readdir e t dir = shuffle (readdir_order e t) dir"

subsection \<open>Partial uploads: the chunk store and the reassembly\<close>

definition parse_content_range :: "string \<Rightarrow> jsnum option \<times> jsnum option \<times> jsnum option" where
  \<comment> \<open>\<open>bytes start-end/total\<close>: the three numbers the handler destructures, each
      \<open>undefined\<close> when the header has too few parts\<close>
  "parse_content_range h =
     (let xs = map Number_js
                 (split_chr CHR ''/''
                    (replace_first ''-'' ''/'' (replace_first ''bytes '' [] h)))
      in (nth_opt xs 0, nth_opt xs 1, nth_opt xs 2))"

definition chunk_prefix :: "string option \<Rightarrow> string" where
  "chunk_prefix identifier = ''zipline_partial_'' @ tmpl_str identifier"

definition chunk_name :: "env \<Rightarrow> string option \<Rightarrow> jsnum option \<Rightarrow> jsnum option \<Rightarrow> string" where
  \<comment> \<open>the name of the temporary file of one chunk\<close>
  "chunk_name e identifier start end =
     chunk_prefix identifier @ ''_'' @ tmpl_num e start @ ''_'' @ tmpl_num e end"

definition list_partials ::
  "env \<Rightarrow> nat \<Rightarrow> string option \<Rightarrow> (string \<times> bytes) list \<Rightarrow> string list" where
  \<comment> \<open>\<open>readdir(tmpdir()).then(files => files.filter(x => x.startsWith(...)))\<close>\<close>
  "list_partials e t identifier dir =
     filter (\<lambda>x. startsWith x (chunk_prefix identifier)) (map fst (readdir e t dir))"

definition read_chunk :: "string \<Rightarrow> jsnum \<times> jsnum \<times> string" where
  \<comment> \<open>\<open>const [, , , start, end] = x.split('_')\<close>, then \<open>Number\<close> of each\<close>
  "read_chunk x =
     (let parts = split_chr CHR ''_'' x
      in (Number_undef (nth_opt parts 3), Number_undef (nth_opt parts 4), x))"

fun combine_chunks ::
  "env \<Rightarrow> (jsnum \<times> jsnum \<times> string) list \<Rightarrow> bytes \<Rightarrow> (string \<times> bytes) list
     \<Rightarrow> (exn + bytes) \<times> (string \<times> bytes) list" where
  \<comment> \<open>the loop over \<open>readChunks\<close>: read the file, unlink it, copy it at its start\<close>
  "combine_chunks e [] chunks dir = (Inr chunks, dir)"
| "combine_chunks e ((start, end, filename) # rest) chunks dir =
     (case map_of dir filename of
        None \<Rightarrow> (Inl ENOENT, dir)
      | Some data \<Rightarrow>
          (case typed_array_set e chunks data start of
             Inl x \<Rightarrow> (Inl x, unlink filename dir)
           | Inr chunks' \<Rightarrow> combine_chunks e rest chunks' (unlink filename dir)))"

definition reassemble ::
  "env \<Rightarrow> nat \<Rightarrow> string option \<Rightarrow> jsnum option \<Rightarrow> (string \<times> bytes) list
     \<Rightarrow> (exn + bytes) \<times> (string \<times> bytes) list" where
  \<comment> \<open>lines 78 to 97 of the handler, at logical time \<open>t\<close>\<close>
  "reassemble e t identifier size_total dir =
     (let readChunks = map read_chunk (list_partials e t identifier dir)
      in case new_Uint8Array e size_total of
           Inl x \<Rightarrow> (Inl x, dir)
         | Inr chunks \<Rightarrow> combine_chunks e readChunks chunks dir)"

definition finish_partial ::
  "env \<Rightarrow> config \<Rightarrow> request \<Rightarrow> user \<Rightarrow> options \<Rightarrow> bytes \<Rightarrow> world \<Rightarrow> response \<times> world" where
  \<comment> \<open>lines 99 to 153: the reassembled upload is named, recorded and saved\<close>
  "finish_partial e cfg req usr opts chunks w =
     (case headers req ''x-zipline-partial-filename'' of
        None \<Rightarrow> (Thrown TypeError, w)
      | Some filename \<Rightarrow>
          let ext = extension filename
          in if ext \<in> set (uploader_disabled_extensions cfg)
             then (Res_error (''disabled extension recieved: '' @ ext), w)
             else
               let fileName = file_stem e cfg (tick w) (format_sel opts) filename;
                   mt = headers req ''x-zipline-partial-mimetype''
               in case (if truthy_num e (imageCompressionPercent opts)
                        then (case mt of
                                None \<Rightarrow> Inl TypeError
                              | Some m \<Rightarrow> Inr (startsWith m ''image/''))
                        else Inr False) of
                    Inl x \<Rightarrow> (Thrown x, w)
                  | Inr compressionUsed \<Rightarrow>
                      let im = image_data e req usr opts w
                                 (fileName @ ''.'' @ (if compressionUsed then ''jpg'' else ext)) mt
                      in case create_record e cfg req im w of
                           (shown, w2) \<Rightarrow>
                             (Res_json_files [server_url cfg req shown] None,
                              (datasource_save (image_file im) chunks w2)
                                \<lparr>tick := Suc (tick w)\<rparr>))"

definition partial_upload ::
  "env \<Rightarrow> config \<Rightarrow> request \<Rightarrow> user \<Rightarrow> options \<Rightarrow> string \<Rightarrow> world \<Rightarrow> response \<times> world" where
  \<comment> \<open>lines 61 to 158: the branch taken when a content-range header is present\<close>
  "partial_upload e cfg req usr opts cr w =
     (case parse_content_range cr of
        (start, end, size_total) \<Rightarrow>
          let identifier = headers req ''x-zipline-partial-identifier'';
              lastchunk = (headers req ''x-zipline-partial-lastchunk'' = Some ''true'');
              tempFile = chunk_name e identifier start end
          in case files req of
               None \<Rightarrow> (Thrown TypeError, w)
             | Some [] \<Rightarrow> (Thrown TypeError, w)
             | Some (f # fs) \<Rightarrow>
                 (case writeFile e tempFile (buffer f) (tmpdir w) of
                    Inl r \<Rightarrow> (r, w)
                  | Inr dir1 \<Rightarrow>
                      if lastchunk
                      then (case reassemble e (tick w) identifier size_total dir1 of
                              (Inl x, dir) \<Rightarrow> (Thrown x, w\<lparr>tmpdir := dir\<rparr>)
                            | (Inr chunks, dir) \<Rightarrow>
                                finish_partial e cfg req usr opts chunks (w\<lparr>tmpdir := dir\<rparr>))
                      else (Res_json_success, w\<lparr>tmpdir := dir1\<rparr>)))"

subsection \<open>Whole uploads\<close>

definition prisma_user_update :: "nat \<Rightarrow> int option \<Rightarrow> world \<Rightarrow> world" where
  \<comment> \<open>\<open>prisma.user.update({ where: { id }, data: { ratelimit } })\<close>\<close>
  "prisma_user_update ident r w =
     w\<lparr>users := map (\<lambda>u. if user_id u = ident then u\<lparr>ratelimit := r\<rparr> else u) (users w)\<rparr>"

definition check_ratelimit :: "env \<Rightarrow> user \<Rightarrow> world \<Rightarrow> response option \<times> world" where
  \<comment> \<open>lines 161 to 175\<close>
  "check_ratelimit e usr w =
     (case ratelimit usr of
        None \<Rightarrow> (None, w)
      | Some lim \<Rightarrow>
          let remaining = lim - date_now e (tick w);
              w1 = w\<lparr>tick := Suc (tick w)\<rparr>
          in if remaining \<le> 0 then (None, prisma_user_update (user_id usr) None w1)
             else (Some (Res_ratelimited remaining), w1))"

definition size_limit :: "config \<Rightarrow> user \<Rightarrow> int" where
  \<comment> \<open>\<open>zconfig.uploader[user.administrator ? 'admin_limit' : 'user_limit']\<close>\<close>
  "size_limit cfg usr =
     (if administrator usr then uploader_admin_limit cfg else uploader_user_limit cfg)"

definition compression_used :: "env \<Rightarrow> options \<Rightarrow> string \<Rightarrow> bool" where
  \<comment> \<open>\<open>imageCompressionPercent && file.mimetype.startsWith('image/')\<close>\<close>
  "compression_used e opts mt =
     (truthy_num e (imageCompressionPercent opts) \<and> startsWith mt ''image/'')"

definition quality :: "env \<Rightarrow> options \<Rightarrow> jsval" where
  \<comment> \<open>the number handed to the encoder as \<open>{ quality: imageCompressionPercent }\<close>\<close>
  "quality e opts =
     (case imageCompressionPercent opts of None \<Rightarrow> VNum 0 0 | Some n \<Rightarrow> num_val e n)"

definition store_file ::
  "env \<Rightarrow> options \<Rightarrow> bool \<Rightarrow> image \<Rightarrow> bytes \<Rightarrow> world \<Rightarrow> exn + world" where
  \<comment> \<open>lines 230 to 238: the bytes are re-encoded when compression is used, then saved
      under the stored name; the encoder throws on bytes it cannot decode and on a
      quality it does not accept\<close>
  "store_file e opts compressionUsed im buf w =
     (if compressionUsed
      then (case sharp_jpeg e buf (quality e opts) of
              None \<Rightarrow> Inl SharpError
            | Some b \<Rightarrow>
                Inr (datasource_save (image_file im) b
                       (w\<lparr>events := events w @ [Ev_sharp (quality e opts)]\<rparr>)))
      else Inr (datasource_save (image_file im) buf w))"

definition response_url :: "env \<Rightarrow> config \<Rightarrow> request \<Rightarrow> user \<Rightarrow> nat \<Rightarrow> string \<Rightarrow> string" where
  \<comment> \<open>lines 243 to 256: one of the domains of the user, picked at random, or the host of
      the request\<close>
  "response_url e cfg req usr t shown =
     (if domains usr \<noteq> []
      then domains usr ! (math_random e t mod length (domains usr))
             @ route_part cfg @ ''/'' @ shown
      else server_url cfg req shown)"

definition whole_image ::
  "env \<Rightarrow> config \<Rightarrow> request \<Rightarrow> user \<Rightarrow> options \<Rightarrow> multer_file \<Rightarrow> world \<Rightarrow> image" where
  \<comment> \<open>lines 213 to 226: the record of a whole file; the extension is \<open>jpg\<close> when
      compression is used, the mimetype is forced by the \<open>uploadtext\<close> header first\<close>
  "whole_image e cfg req usr opts f w =
     image_data e req usr opts w
       (file_stem e cfg (tick w) (format_sel opts) (originalname f) @ ''.''
          @ (if compression_used e opts (file_mimetype f) then ''jpg''
             else extension (originalname f)))
       (Some (if truthy_str (headers req ''uploadtext'') then ''text/plain''
              else if compression_used e opts (file_mimetype f) then ''image/jpeg''
              else file_mimetype f))"

definition ingest_file ::
  "env \<Rightarrow> config \<Rightarrow> request \<Rightarrow> user \<Rightarrow> options \<Rightarrow> nat \<Rightarrow> multer_file \<Rightarrow> world
     \<Rightarrow> (response + string) \<times> world" where
  \<comment> \<open>the body of the loop over \<open>req.files\<close>, lines 181 to 264, for the file at index
      \<open>i\<close>: \<open>Inl\<close> is the early return, \<open>Inr\<close> the URL pushed to the response\<close>
  "ingest_file e cfg req usr opts i f w =
     (if size_limit cfg usr < file_size f
      then (Inl (Res_error (''file['' @ show_nat i @ '']: size too big'')), w)
      else if extension (originalname f) \<in> set (uploader_disabled_extensions cfg)
      then (Inl (Res_error (''file['' @ show_nat i @ '']: disabled extension recieved: ''
                             @ extension (originalname f))), w)
      else
        (case create_record e cfg req (whole_image e cfg req usr opts f w) w of
           (shown, w2) \<Rightarrow>
             (case store_file e opts (compression_used e opts (file_mimetype f))
                     (whole_image e cfg req usr opts f w) (buffer f) w2 of
                Inl x \<Rightarrow> (Inl (Thrown x), w2)
              | Inr w3 \<Rightarrow>
                  (Inr (response_url e cfg req usr (tick w) shown),
                   w3\<lparr>tick := Suc (tick w)\<rparr>))))"

fun upload_files ::
  "env \<Rightarrow> config \<Rightarrow> request \<Rightarrow> user \<Rightarrow> options \<Rightarrow> nat \<Rightarrow> multer_file list \<Rightarrow> string list
     \<Rightarrow> world \<Rightarrow> (response + string list) \<times> world" where
  \<comment> \<open>\<open>for (let i = 0; i !== req.files.length; ++i)\<close>, from index \<open>i\<close> on\<close>
  "upload_files e cfg req usr opts i [] urls w = (Inr urls, w)"
| "upload_files e cfg req usr opts i (f # fs) urls w =
     (case ingest_file e cfg req usr opts i f w of
        (Inl r, w') \<Rightarrow> (Inl r, w')
      | (Inr url, w') \<Rightarrow> upload_files e cfg req usr opts (Suc i) fs (urls @ [url]) w')"

definition arm_ratelimit :: "env \<Rightarrow> config \<Rightarrow> user \<Rightarrow> world \<Rightarrow> world" where
  \<comment> \<open>lines 267 to 287, with the inner test as the source has it\<close>
  "arm_ratelimit e cfg usr w =
     (if administrator usr \<and> 0 < ratelimit_admin cfg
      then prisma_user_update (user_id usr)
             (Some (date_now e (tick w) + ratelimit_admin cfg * 1000))
             (w\<lparr>tick := Suc (tick w)\<rparr>)
      else if \<not> administrator usr \<and> 0 < ratelimit_user cfg
      then (if administrator usr \<and> 0 < ratelimit_user cfg
            then prisma_user_update (user_id usr)
                   (Some (date_now e (tick w) + ratelimit_user cfg * 1000))
                   (w\<lparr>tick := Suc (tick w)\<rparr>)
            else w)
      else w)"

definition process_batch ::
  "env \<Rightarrow> config \<Rightarrow> request \<Rightarrow> user \<Rightarrow> options \<Rightarrow> world \<Rightarrow> response \<times> world" where
  \<comment> \<open>lines 177 to 289: what a whole upload does once the cooldown has let it pass\<close>
  "process_batch e cfg req usr opts w =
     (case files req of
        None \<Rightarrow> (Res_error ''no files'', w)
      | Some [] \<Rightarrow> (Res_error ''no files'', w)
      | Some (f # fs) \<Rightarrow>
          (case upload_files e cfg req usr opts 0 (f # fs) [] w of
             (Inl r, w') \<Rightarrow> (r, w')
           | (Inr urls, w') \<Rightarrow>
               (Res_json_files urls (expiry opts), arm_ratelimit e cfg usr w')))"

definition whole_upload ::
  "env \<Rightarrow> config \<Rightarrow> request \<Rightarrow> user \<Rightarrow> options \<Rightarrow> world \<Rightarrow> response \<times> world" where
  \<comment> \<open>lines 161 to 289\<close>
  "whole_upload e cfg req usr opts w =
     (case check_ratelimit e usr w of
        (Some r, w1) \<Rightarrow> (r, w1)
      | (None, w1) \<Rightarrow> process_batch e cfg req usr opts w1)"

subsection \<open>The handler\<close>

definition handler :: "env \<Rightarrow> config \<Rightarrow> world \<Rightarrow> request \<Rightarrow> response \<times> world" where
  "handler e cfg w req =
     (if req_method req \<noteq> ''POST'' then (Res_forbid ''invalid method'', w)
      else
        (case headers req ''authorization'' of
           None \<Rightarrow> (Res_forbid ''no authorization'', w)
         | Some auth \<Rightarrow>
             if auth = [] then (Res_forbid ''no authorization'', w)
             else
               (case find (\<lambda>u. token u = auth) (users w) of
                  None \<Rightarrow> (Res_forbid ''authorization incorrect'', w)
                | Some usr \<Rightarrow>
                    (case parse_options e req of
                       Inl r \<Rightarrow> (r, w)
                     | Inr opts \<Rightarrow>
                         (case headers req ''content-range'' of
                            None \<Rightarrow> whole_upload e cfg req usr opts w
                          | Some cr \<Rightarrow>
                              if cr = [] then whole_upload e cfg req usr opts w
                              else partial_upload e cfg req usr opts cr w)))))"

section \<open>Notions used to state the properties\<close>

definition reaches_upload :: "env \<Rightarrow> world \<Rightarrow> request \<Rightarrow> user \<Rightarrow> options \<Rightarrow> bool" where
  \<comment> \<open>the request is a POST of the user \<open>usr\<close> whose headers are valid and parse to
      \<open>opts\<close>: it passes lines 21 to 58\<close>
  "reaches_upload e w req usr opts =
     (req_method req = ''POST''
      \<and> (case headers req ''authorization'' of
            None \<Rightarrow> False
          | Some a \<Rightarrow> a \<noteq> [] \<and> find (\<lambda>u. token u = a) (users w) = Some usr)
      \<and> parse_options e req = Inr opts)"

definition is_rejection :: "response \<Rightarrow> bool" where
  \<comment> \<open>an error response, or the failure of the image encoder on an earlier file\<close>
  "is_rejection r = (case r of Res_error m \<Rightarrow> True | Thrown x \<Rightarrow> True | _ \<Rightarrow> False)"

definition refused :: "config \<Rightarrow> user \<Rightarrow> multer_file \<Rightarrow> bool" where
  \<comment> \<open>the file fails one of the two checks at the head of the loop body\<close>
  "refused cfg usr f =
     (size_limit cfg usr < file_size f
      \<or> extension (originalname f) \<in> set (uploader_disabled_extensions cfg))"

definition recognised :: "string \<Rightarrow> bool" where
  \<comment> \<open>the selector is one of the four format names, whatever its case\<close>
  "recognised s = (toUpperCase s \<in> {''RANDOM'', ''DATE'', ''UUID'', ''NAME''})"

definition percent_value :: "env \<Rightarrow> request \<Rightarrow> jsval option" where
  \<comment> \<open>the number supplied as compression percent: \<open>None\<close> when the header is absent
      or empty\<close>
  "percent_value e req =
     map_option (num_val e) (header_num (headers req ''image-compression-percent''))"

fun created_before_saved :: "string list \<Rightarrow> event list \<Rightarrow> bool" where
  \<comment> \<open>every save in the trace is of a file name whose record was created earlier in
      the trace (or is among \<open>seen\<close>)\<close>
  "created_before_saved seen [] = True"
| "created_before_saved seen (Ev_create im # es) = created_before_saved (image_file im # seen) es"
| "created_before_saved seen (Ev_sharp q # es) = created_before_saved seen es"
| "created_before_saved seen (Ev_save name data # es) =
     (name \<in> set seen \<and> created_before_saved seen es)"

definition orderly :: "world \<Rightarrow> world \<Rightarrow> bool" where
  \<comment> \<open>the trace of \<open>w'\<close> extends the trace of \<open>w\<close> by calls among which every save
      follows the creation of the record of the saved name\<close>
  "orderly w w' = (\<exists>new. events w' = events w @ new \<and> created_before_saved [] new)"

fun saves :: "event list \<Rightarrow> nat" where
  \<comment> \<open>the number of writes to the blob store in a trace\<close>
  "saves [] = 0"
| "saves (Ev_save name data # es) = Suc (saves es)"
| "saves (Ev_create im # es) = saves es"
| "saves (Ev_sharp q # es) = saves es"

definition plain_name :: "env \<Rightarrow> string \<Rightarrow> bool" where
  \<comment> \<open>the name is one the file system takes for a file directly inside the temporary
      directory: no path separator, no NUL character, not too long\<close>
  "plain_name e name =
     (CHR ''/'' \<notin> set name \<and> CHR 0x00 \<notin> set name \<and> name_bytes name \<le> name_max e)"

text \<open>
  A stored chunk is described by its declared start, its declared end and its bytes.
\<close>

type_synonym chunk = "nat \<times> nat \<times> bytes"

definition chunk_file :: "string \<Rightarrow> chunk \<Rightarrow> string \<times> bytes" where
  \<comment> \<open>the temporary file that holds a chunk of the upload \<open>ident\<close>: its name carries
      the identifier, the start and the end in decimal digits\<close>
  "chunk_file ident c =
     (case c of (s, e, b) \<Rightarrow>
        (''zipline_partial_'' @ ident @ ''_'' @ show_nat s @ ''_'' @ show_nat e, b))"

definition stored_chunks ::
  "env \<Rightarrow> nat \<Rightarrow> string \<Rightarrow> (string \<times> bytes) list \<Rightarrow> (string \<times> bytes) list" where
  \<comment> \<open>the files of the directory that the reassembly of \<open>ident\<close> enumerates at time
      \<open>t\<close>, in the order of the enumeration\<close>
  "stored_chunks e t ident dir =
     filter (\<lambda>nb. startsWith (fst nb) (chunk_prefix (Some ident))) (readdir e t dir)"

definition covers :: "chunk \<Rightarrow> nat \<Rightarrow> bool" where
  "covers c i = (case c of (s, e, b) \<Rightarrow> s \<le> i \<and> i < e)"

definition well_sized :: "chunk \<Rightarrow> bool" where
  \<comment> \<open>the chunk carries as many bytes as its range \<open>[start, end)\<close> declares\<close>
  "well_sized c = (case c of (s, e, b) \<Rightarrow> s \<le> e \<and> length b = e - s)"

definition slice_of :: "bytes \<Rightarrow> chunk \<Rightarrow> bool" where
  \<comment> \<open>the chunk is the range \<open>[start, end)\<close> of the source bytes\<close>
  "slice_of src c = (case c of (s, e, b) \<Rightarrow> s \<le> e \<and> e \<le> length src \<and> b = take (e - s) (drop s src))"

definition fits :: "nat \<Rightarrow> chunk \<Rightarrow> bool" where
  \<comment> \<open>the bytes of the chunk, copied at its start, end inside a buffer of length \<open>n\<close>\<close>
  "fits n c = (case c of (s, e, b) \<Rightarrow> s + length b \<le> n)"

definition touches :: "chunk \<Rightarrow> nat \<Rightarrow> bool" where
  \<comment> \<open>the copy of the chunk writes the position \<open>i\<close>\<close>
  "touches c i = (case c of (s, e, b) \<Rightarrow> s \<le> i \<and> i < s + length b)"

definition paste1 :: "chunk \<Rightarrow> bytes \<Rightarrow> bytes" where
  "paste1 c acc = (case c of (s, e, b) \<Rightarrow> take s acc @ b @ drop (s + length b) acc)"

definition paste :: "chunk list \<Rightarrow> bytes \<Rightarrow> bytes" where
  \<comment> \<open>the chunks copied one after the other, each at its start\<close>
  "paste cs acc = fold paste1 cs acc"

section \<open>Sample inputs\<close>

definition ex_env :: env where
  \<comment> \<open>a sample environment: the directory is listed in the order of creation, no
      string outside the integers is read as a number\<close>
  "ex_env =
     \<lparr>parseExpiry = (\<lambda>s. None),
      randomChars = (\<lambda>t n. replicate n (digit_chr (t mod 10))),
      dayjs_format = (\<lambda>t p. p),
      randomUUID = (\<lambda>t. ''0f8fad5b-d9cb-469f-a165-70867728950e''),
      hashPassword = (\<lambda>t s. rev s),
      invis_chars = (\<lambda>t n. replicate n CHR ''z''),
      math_random = (\<lambda>t. t),
      date_now = (\<lambda>t. 1000 + int t),
      sharp_jpeg = (\<lambda>b q. Some (take 1 b)),
      number_other = (\<lambda>s. VNaN),
      string_other = (\<lambda>s. ''NaN''),
      max_length = 4294967296,
      name_max = 255,
      readdir_order = (\<lambda>t i. 0)\<rparr>"

definition ex_cfg :: config where
  "ex_cfg =
     \<lparr>core_https = False, uploader_route = ''/u'', uploader_length = 2,
      uploader_format_date = ''YYYY-MM-DD'', uploader_admin_limit = 100,
      uploader_user_limit = 4, uploader_disabled_extensions = [''exe''],
      ratelimit_admin = 0, ratelimit_user = 5\<rparr>"

definition ex_user :: user where
  "ex_user =
     \<lparr>user_id = 1, username = ''bob'', token = ''tok'', administrator = False,
      ratelimit = None, domains = []\<rparr>"

definition ex_world :: world where
  "ex_world =
     \<lparr>users = [ex_user], images = [], invisibles = [], datasource = [], tmpdir = [],
      tick = 0, events = []\<rparr>"

definition ex_file :: "string \<Rightarrow> string \<Rightarrow> bytes \<Rightarrow> multer_file" where
  "ex_file name mt b =
     \<lparr>originalname = name, file_mimetype = mt, file_size = int (length b), buffer = b\<rparr>"

definition ex_whole :: "(string \<rightharpoonup> string) \<Rightarrow> multer_file list \<Rightarrow> request" where
  \<comment> \<open>a whole upload of the sample user with further headers \<open>hs\<close>\<close>
  "ex_whole hs fs =
     \<lparr>req_method = ''POST'',
      headers = hs(''authorization'' \<mapsto> ''tok'', ''host'' \<mapsto> ''example.org''),
      files = Some fs\<rparr>"

definition ex_chunk :: "string \<Rightarrow> string \<Rightarrow> string \<Rightarrow> string \<Rightarrow> bytes \<Rightarrow> request" where
  \<comment> \<open>one chunk of the upload \<open>ident\<close> of a file named \<open>name\<close>, sent by the sample user\<close>
  "ex_chunk ident name cr lastchunk b =
     \<lparr>req_method = ''POST'',
      headers =
        [''authorization'' \<mapsto> ''tok'', ''host'' \<mapsto> ''example.org'',
         ''content-range'' \<mapsto> cr,
         ''x-zipline-partial-identifier'' \<mapsto> ident,
         ''x-zipline-partial-filename'' \<mapsto> name,
         ''x-zipline-partial-mimetype'' \<mapsto> ''application/octet-stream'',
         ''x-zipline-partial-lastchunk'' \<mapsto> lastchunk],
      files = Some [ex_file ''blob'' ''application/octet-stream'' b]\<rparr>"

definition without_header :: "string \<Rightarrow> request \<Rightarrow> request" where
  \<comment> \<open>the request with one header left out\<close>
  "without_header h req = req\<lparr>headers := (headers req)(h := None)\<rparr>"

definition with_header :: "string \<Rightarrow> string \<Rightarrow> request \<Rightarrow> request" where
  \<comment> \<open>the request with one more header\<close>
  "with_header h v req = req\<lparr>headers := (headers req)(h \<mapsto> v)\<rparr>"



definition ex_world_dir :: "(string \<times> bytes) list \<Rightarrow> world" where
  \<comment> \<open>the sample world with the temporary files \<open>dir\<close>\<close>
  "ex_world_dir dir = ex_world\<lparr>tmpdir := dir\<rparr>"

definition ex_png :: multer_file where
  "ex_png = ex_file ''cat.png'' ''image/png'' [1, 2, 3]"

definition ex_exe :: multer_file where
  "ex_exe = ex_file ''setup.exe'' ''application/octet-stream'' [7]"

definition ex_big :: multer_file where
  \<comment> \<open>five bytes, one more than the sample limit of a user\<close>
  "ex_big = ex_file ''big.bin'' ''application/octet-stream'' [7, 7, 7, 7, 7]"

definition ex_opts :: options where
  "ex_opts =
     \<lparr>expiry = None, format_sel = Some RANDOM, imageCompressionPercent = None,
      fileMaxViews = None\<rparr>"

section \<open>Properties of strings, numbers and the directory listing\<close>

lemma split_chr_nonempty: "split_chr c s \<noteq> []"
  by (induction s) (auto split: list.splits)

lemma split_chr_no_sep: "c \<notin> set xs \<Longrightarrow> split_chr c xs = [xs]"
  by (induction xs) auto

lemma split_chr_append:
  "c \<notin> set xs \<Longrightarrow> split_chr c (xs @ c # ys) = xs # split_chr c ys"
  by (induction xs) auto

lemma of_char_digit_chr: "d < 10 \<Longrightarrow> (of_char (digit_chr d) :: nat) = 48 + d"
  by (simp add: digit_chr_def)

lemma is_digit_digit_chr: "d < 10 \<Longrightarrow> is_digit (digit_chr d)"
  by (simp add: is_digit_def of_char_digit_chr)

lemma show_nat_digits: "list_all is_digit (show_nat n)"
proof (induction n rule: show_nat.induct)
  case (1 n)
  show ?case
  proof (cases "n < 10")
    case True
    then show ?thesis by (subst show_nat.simps) (simp add: is_digit_digit_chr)
  next
    case False
    then show ?thesis using 1 by (subst show_nat.simps) (simp add: is_digit_digit_chr)
  qed
qed

lemma show_nat_nonempty: "show_nat n \<noteq> []"
  by (subst show_nat.simps) simp

lemma digits_value_snoc:
  "digits_value (s @ [c]) = 10 * digits_value s + (int (of_char c) - 48)"
  by (simp add: digits_value_def)

lemma digits_value_show_nat: "digits_value (show_nat n) = int n"
proof (induction n rule: show_nat.induct)
  case (1 n)
  show ?case
  proof (cases "n < 10")
    case True
    then show ?thesis
      by (subst show_nat.simps) (simp add: digits_value_def of_char_digit_chr)
  next
    case False
    then have "digits_value (show_nat (n div 10)) = int (n div 10)" using 1 by simp
    moreover have "10 * int (n div 10) + int (n mod 10) = int n"
      by (simp add: zdiv_int zmod_int)
    ultimately show ?thesis using False
      by (subst show_nat.simps) (simp add: digits_value_snoc of_char_digit_chr)
  qed
qed

lemma digit_not_space: "is_digit c \<Longrightarrow> \<not> is_space c"
  by (auto simp: is_digit_def is_space_def)

lemma digit_not_sign: "is_digit c \<Longrightarrow> c \<noteq> CHR ''-'' \<and> c \<noteq> CHR ''+'' \<and> c \<noteq> CHR ''_''"
  by (auto simp: is_digit_def)

lemma dropWhile_id: "xs \<noteq> [] \<Longrightarrow> \<not> P (hd xs) \<Longrightarrow> dropWhile P xs = xs"
  by (cases xs) simp_all

lemma trim_digits:
  assumes "list_all is_digit s"
  shows "trim s = s"
proof (cases "s = []")
  case True
  then show ?thesis by (simp add: trim_def)
next
  case False
  have h: "\<not> is_space (hd s)" using assms False digit_not_space
    by (cases s) auto
  have l: "\<not> is_space (hd (rev s))" using assms False digit_not_space
    by (simp add: hd_rev list_all_iff)
  have "dropWhile is_space s = s" using False h by (rule dropWhile_id)
  moreover have "dropWhile is_space (rev s) = rev s" using False l by (simp add: dropWhile_id)
  ultimately show ?thesis by (simp add: trim_def)
qed

lemma Number_js_digits:
  assumes "list_all is_digit s" and "s \<noteq> []" and "digits_value s \<le> 9007199254740992"
  shows "Number_js s = Num (digits_value s)"
proof -
  obtain c cs where s: "s = c # cs" using assms(2) by (cases s) auto
  have "is_digit c" using assms(1) s by simp
  then have "c \<noteq> CHR ''-''" "c \<noteq> CHR ''+''" using digit_not_sign by blast+
  moreover have "safe_digits (c # cs)" using assms s by (simp add: safe_digits_def)
  moreover have "trim (c # cs) = c # cs" using assms(1) s trim_digits by blast
  ultimately show ?thesis
    using s by (simp add: Number_js_def)
qed

lemma Number_js_show_nat:
  assumes "n \<le> 9007199254740992"
  shows "Number_js (show_nat n) = Num (int n)"
  using Number_js_digits [OF show_nat_digits show_nat_nonempty, of n] assms
  by (simp add: digits_value_show_nat)

lemma show_nat_no_underscore: "CHR ''_'' \<notin> set (show_nat n)"
proof
  assume "CHR ''_'' \<in> set (show_nat n)"
  then have "is_digit CHR ''_''" using show_nat_digits [of n] by (simp add: list_all_iff)
  then show False by (simp add: is_digit_def)
qed

lemma trunc_int: "trunc i 0 = i"
  by (simp add: trunc_def)

lemma set_insert_at: "set (insert_at k x ys) = insert x (set ys)"
  by (induction k x ys rule: insert_at.induct) auto

lemma distinct_map_insert_at:
  "distinct (map g (insert_at k x ys)) \<longleftrightarrow> g x \<notin> g ` set ys \<and> distinct (map g ys)"
  by (induction k x ys rule: insert_at.induct) (auto simp: set_insert_at)

lemma set_shuffle: "set (shuffle pos xs) = set xs"
  by (induction xs) (simp_all add: set_insert_at)

lemma distinct_map_shuffle: "distinct (map g (shuffle pos xs)) \<longleftrightarrow> distinct (map g xs)"
  by (induction xs) (simp_all add: distinct_map_insert_at set_shuffle)

lemma set_readdir: "set (readdir e t dir) = set dir"
  by (simp add: readdir_def set_shuffle)

lemma distinct_readdir: "distinct (map fst (readdir e t dir)) \<longleftrightarrow> distinct (map fst dir)"
  by (simp add: readdir_def distinct_map_shuffle)

section \<open>Properties of the header validation and of the naming\<close>

lemma parse_options_fields:
  assumes "parse_options e req = Inr opts"
  shows "format_sel opts = ImageFormat_of (rawFormat (headers req ''format''))"
    and "imageCompressionPercent opts = header_num (headers req ''image-compression-percent'')"
    and "fileMaxViews opts = header_num (headers req ''max-views'')"
    and "\<not> isNaN e (imageCompressionPercent opts)"
    and "\<not> lt0 e (imageCompressionPercent opts)"
    and "\<not> gt100 e (imageCompressionPercent opts)"
proof -
  obtain ex where
    "(let fmt = ImageFormat_of (rawFormat (headers req ''format''));
              pct = header_num (headers req ''image-compression-percent'')
          in if isNaN e pct
             then Inl (Res_error ''invalid image compression percent (invalid number)'')
             else if lt0 e pct \<or> gt100 e pct
             then Inl (Res_error ''invalid image compression percent (% < 0 || % > 100)'')
             else
               let mv = header_num (headers req ''max-views'')
               in if isNaN e mv then Inl (Res_error ''invalid max views (invalid number)'')
                  else if lt0 e mv then Inl (Res_error ''invalid max views (max views < 0)'')
                  else Inr \<lparr>expiry = ex, format_sel = fmt,
                            imageCompressionPercent = pct, fileMaxViews = mv\<rparr>) = Inr opts"
    using assms unfolding parse_options_def by (simp split: sum.splits)
  then have *: "opts = \<lparr>expiry = ex, format_sel = ImageFormat_of (rawFormat (headers req ''format'')),
                            imageCompressionPercent = header_num (headers req ''image-compression-percent''), fileMaxViews = header_num (headers req ''max-views'')\<rparr>
     \<and> \<not> isNaN e (header_num (headers req ''image-compression-percent'')) \<and> \<not> lt0 e (header_num (headers req ''image-compression-percent''))
     \<and> \<not> gt100 e (header_num (headers req ''image-compression-percent''))"
    by (simp add: Let_def split: if_splits)
  from * show "format_sel opts = ImageFormat_of (rawFormat (headers req ''format''))" by simp
  from * show "imageCompressionPercent opts = header_num (headers req ''image-compression-percent'')" by simp
  from * show "fileMaxViews opts = header_num (headers req ''max-views'')" by simp
  from * show "\<not> isNaN e (imageCompressionPercent opts)" by simp
  from * show "\<not> lt0 e (imageCompressionPercent opts)" by simp
  from * show "\<not> gt100 e (imageCompressionPercent opts)" by simp
qed


lemma handler_whole:
  assumes "reaches_upload e w req usr opts" and "\<not> truthy_str (headers req ''content-range'')"
  shows "handler e cfg w req = whole_upload e cfg req usr opts w"
  using assms
  by (auto simp: handler_def reaches_upload_def truthy_str_def split: option.splits)

lemma handler_partial:
  assumes "reaches_upload e w req usr opts" and "headers req ''content-range'' = Some cr" and "cr \<noteq> []"
  shows "handler e cfg w req = partial_upload e cfg req usr opts cr w"
  using assms
  by (auto simp: handler_def reaches_upload_def split: option.splits)

lemma rawFormat_None: "rawFormat None = ''RANDOM''"
  by (simp add: rawFormat_def toUpperCase_def)

lemma rawFormat_empty: "rawFormat (Some []) = ''RANDOM''"
  by (simp add: rawFormat_def toUpperCase_def)

lemma ImageFormat_of_unrecognised:
  "\<not> recognised s \<Longrightarrow> s \<noteq> [] \<Longrightarrow> ImageFormat_of (rawFormat (Some s)) = None"
  by (simp add: recognised_def rawFormat_def ImageFormat_of_def Let_def toUpperCase_def)

text \<open>
  Claim C8.  When the format header is absent, or names none of \<open>RANDOM\<close>, \<open>DATE\<close>,
  \<open>UUID\<close> and \<open>NAME\<close> whatever its case, the file name stem that the handler
  resolves from the parsed options is the one the \<open>RANDOM\<close> format resolves: the random
  string of the configured length.
\<close>

theorem unrecognised_format_names_like_RANDOM:
  assumes "parse_options e req = Inr opts"
    and "headers req ''format'' = None \<or> (\<exists>s. headers req ''format'' = Some s \<and> \<not> recognised s)"
  shows "file_stem e cfg t (format_sel opts) original = file_stem e cfg t (Some RANDOM) original
       \<and> file_stem e cfg t (format_sel opts) original = randomChars e t (uploader_length cfg)"
proof -
  have fmt: "format_sel opts = ImageFormat_of (rawFormat (headers req ''format''))"
    using assms(1) by (rule parse_options_fields)
  have "format_sel opts = Some RANDOM \<or> format_sel opts = None"
    using assms(2)
  proof (elim disjE exE conjE)
    assume "headers req ''format'' = None"
    then show ?thesis using fmt by (simp add: rawFormat_None ImageFormat_of_def)
  next
    fix s assume 2: "headers req ''format'' = Some s" "\<not> recognised s"
    show ?thesis
    proof (cases "s = []")
      case True
      then show ?thesis using fmt 2 by (simp add: rawFormat_empty ImageFormat_of_def)
    next
      case False
      then show ?thesis using fmt 2 by (simp add: ImageFormat_of_unrecognised)
    qed
  qed
  then show ?thesis by (auto simp: file_stem_def)
qed

theorem unrecognised_format_witness:
  "parse_options ex_env (ex_whole [''format'' \<mapsto> ''bogus''] []) = Inr (ex_opts\<lparr>format_sel := None\<rparr>)
   \<and> headers (ex_whole [''format'' \<mapsto> ''bogus''] []) ''format'' = Some ''bogus''
   \<and> \<not> recognised ''bogus''
   \<and> file_stem ex_env ex_cfg 7 None ''cat.png'' = ''77''
   \<and> file_stem ex_env ex_cfg 7 (Some RANDOM) ''cat.png'' = ''77''"
proof -
  have p: "parse_options ex_env (ex_whole [''format'' \<mapsto> ''bogus''] []) = Inr (ex_opts\<lparr>format_sel := None\<rparr>)"
    by code_simp
  have h: "headers (ex_whole [''format'' \<mapsto> ''bogus''] []) ''format'' = Some ''bogus''"
    by (simp add: ex_whole_def)
  have n: "\<not> recognised ''bogus''" by code_simp
  have r: "randomChars ex_env 7 (uploader_length ex_cfg) = ''77''" by code_simp
  have q: "file_stem ex_env ex_cfg 7 (Some RANDOM) ''cat.png'' = ''77''" by code_simp
  have c: "headers (ex_whole [''format'' \<mapsto> ''bogus''] []) ''format'' = None
           \<or> (\<exists>s. headers (ex_whole [''format'' \<mapsto> ''bogus''] []) ''format'' = Some s \<and> \<not> recognised s)"
    using h n by simp
  have "file_stem ex_env ex_cfg 7 (format_sel (ex_opts\<lparr>format_sel := None\<rparr>)) ''cat.png''
          = randomChars ex_env 7 (uploader_length ex_cfg)"
    using unrecognised_format_names_like_RANDOM [OF p c, of ex_cfg 7 "''cat.png''"] by (rule conjunct2)
  then have "file_stem ex_env ex_cfg 7 None ''cat.png'' = ''77''" using r by simp
  then show ?thesis using p h n q by simp
qed

section \<open>The cooldown\<close>








lemma arm_ratelimit_user: "\<not> administrator usr \<Longrightarrow> arm_ratelimit e cfg usr w = w"
  by (simp add: arm_ratelimit_def)

text \<open>
  Claim C3 at a concrete batch: a user who is no administrator uploads one file while a
  user cooldown of 5 seconds is configured.  The upload succeeds and the stored cooldown
  of the user is still empty: the update sits under a test that asks for an
  administrator inside the branch of the users who are none.
\<close>

theorem user_cooldown_never_armed:
  "\<not> administrator ex_user \<and> 0 < ratelimit_user ex_cfg
   \<and> fst (handler ex_env ex_cfg ex_world (ex_whole Map.empty [ex_file ''a.png'' ''image/png'' [1, 2]]))
       = Res_json_files [''http://example.org/u/00.png''] None
   \<and> users (snd (handler ex_env ex_cfg ex_world (ex_whole Map.empty [ex_file ''a.png'' ''image/png'' [1, 2]])))
       = [ex_user]
   \<and> ratelimit ex_user = None"
  by code_simp

section \<open>Intermediate chunks\<close>

lemma resolve_plain:
  assumes "CHR ''/'' \<notin> set name" and "name \<noteq> []" and "name \<noteq> ''.''" and "name \<noteq> ''..''"
  shows "resolve [] (split_chr CHR ''/'' name) = Some [name]"
  using assms by (simp add: split_chr_no_sep)

lemma chunk_name_shape:
  "chunk_name e i s t \<noteq> []" "chunk_name e i s t \<noteq> ''.''" "chunk_name e i s t \<noteq> ''..''"
  by (simp_all add: chunk_name_def chunk_prefix_def)

lemma writeFile_plain:
  assumes "plain_name e (chunk_name e i s t)"
  shows "writeFile e (chunk_name e i s t) b dir = Inr (AList.update (chunk_name e i s t) b dir)"
proof -
  have "CHR ''/'' \<notin> set (chunk_name e i s t)" using assms by (simp add: plain_name_def)
  then have "resolve [] (split_chr CHR ''/'' (chunk_name e i s t)) = Some [chunk_name e i s t]"
    by (rule resolve_plain) (rule chunk_name_shape)+
  then show ?thesis using assms by (simp add: writeFile_def plain_name_def)
qed

lemma writeFile_Inr:
  assumes "writeFile e name b dir = Inr dir1"
  shows "\<exists>x. dir1 = AList.update x b dir"
  using assms by (auto simp: writeFile_def split: if_splits option.splits list.splits)

lemma partial_upload_not_last:
  assumes "headers req ''x-zipline-partial-lastchunk'' \<noteq> Some ''true''"
    and "files req = Some (f # fs)"
    and "parse_content_range cr = (start, stop, tot)"
    and "writeFile e (chunk_name e (headers req ''x-zipline-partial-identifier'') start stop)
           (buffer f) (tmpdir w) = Inr dir1"
  shows "partial_upload e cfg req usr opts cr w = (Res_json_success, w\<lparr>tmpdir := dir1\<rparr>)"
  unfolding partial_upload_def using assms by (simp add: Let_def)

text \<open>
  Claim C9, as the handler implements it.  A content-range request that passes the
  authentication and the header validation, carries a file part and does not flag the
  last chunk, and whose temporary file name, made of the identifier, the start and the
  end, is one the file system takes for a file of the temporary directory (no path
  separator, no NUL character, not too long): the bytes are written to the file of that
  name, the answer is the acknowledgement, no record is created, nothing is saved to the
  blob store, and every temporary file with another name is left as it was.  A file
  already stored under the same name is replaced.
\<close>

theorem intermediate_chunk_is_stored:
  assumes "reaches_upload e w req usr opts"
    and "headers req ''content-range'' = Some cr" and "cr \<noteq> []"
    and "headers req ''x-zipline-partial-lastchunk'' \<noteq> Some ''true''"
    and "files req = Some (f # fs)"
    and "parse_content_range cr = (start, stop, tot)"
    and "plain_name e (chunk_name e (headers req ''x-zipline-partial-identifier'') start stop)"
  shows "handler e cfg w req =
           (Res_json_success,
            w\<lparr>tmpdir := AList.update
                          (chunk_name e (headers req ''x-zipline-partial-identifier'') start stop)
                          (buffer f) (tmpdir w)\<rparr>)
       \<and> images (snd (handler e cfg w req)) = images w
       \<and> datasource (snd (handler e cfg w req)) = datasource w
       \<and> events (snd (handler e cfg w req)) = events w
       \<and> map_of (tmpdir (snd (handler e cfg w req)))
            (chunk_name e (headers req ''x-zipline-partial-identifier'') start stop) = Some (buffer f)
       \<and> (\<forall>k. k \<noteq> chunk_name e (headers req ''x-zipline-partial-identifier'') start stop
              \<longrightarrow> map_of (tmpdir (snd (handler e cfg w req))) k = map_of (tmpdir w) k)"
proof -
  let ?K = "chunk_name e (headers req ''x-zipline-partial-identifier'') start stop"
  have wr: "writeFile e ?K (buffer f) (tmpdir w) = Inr (AList.update ?K (buffer f) (tmpdir w))"
    by (rule writeFile_plain [OF assms(7)])
  have h: "handler e cfg w req =
           (Res_json_success, w\<lparr>tmpdir := AList.update ?K (buffer f) (tmpdir w)\<rparr>)"
    unfolding handler_partial [OF assms(1,2,3)]
    by (rule partial_upload_not_last [OF assms(4,5,6) wr])
  show ?thesis unfolding h by (simp add: update_conv')
qed

theorem intermediate_chunk_is_stored_witness:
  "reaches_upload ex_env ex_world (ex_chunk ''ab'' ''a.bin'' ''bytes 0-2/4'' ''false'' [1, 2]) ex_user ex_opts
   \<and> parse_content_range ''bytes 0-2/4'' = (Some (Num 0), Some (Num 2), Some (Num 4))
   \<and> chunk_name ex_env (Some ''ab'') (Some (Num 0)) (Some (Num 2)) = ''zipline_partial_ab_0_2''
   \<and> plain_name ex_env ''zipline_partial_ab_0_2''
   \<and> handler ex_env ex_cfg ex_world (ex_chunk ''ab'' ''a.bin'' ''bytes 0-2/4'' ''false'' [1, 2])
       = (Res_json_success, ex_world\<lparr>tmpdir := [(''zipline_partial_ab_0_2'', [1, 2])]\<rparr>)"
proof -
  let ?req = "ex_chunk ''ab'' ''a.bin'' ''bytes 0-2/4'' ''false'' [1, 2]"
  have a: "reaches_upload ex_env ex_world ?req ex_user ex_opts" by code_simp
  have b: "headers ?req ''content-range'' = Some ''bytes 0-2/4''" by code_simp
  have c: "''bytes 0-2/4'' \<noteq> []" by simp
  have d: "headers ?req ''x-zipline-partial-lastchunk'' \<noteq> Some ''true''" by code_simp
  have f: "files ?req = Some (ex_file ''blob'' ''application/octet-stream'' [1, 2] # [])" by code_simp
  have p: "parse_content_range ''bytes 0-2/4'' = (Some (Num 0), Some (Num 2), Some (Num 4))" by code_simp
  have i: "headers ?req ''x-zipline-partial-identifier'' = Some ''ab''" by code_simp
  have n: "chunk_name ex_env (Some ''ab'') (Some (Num 0)) (Some (Num 2)) = ''zipline_partial_ab_0_2''" by code_simp
  have q: "plain_name ex_env ''zipline_partial_ab_0_2''" by code_simp
  have q': "plain_name ex_env (chunk_name ex_env (headers ?req ''x-zipline-partial-identifier'') (Some (Num 0)) (Some (Num 2)))"
    unfolding i n by (rule q)
  have t: "tmpdir ex_world = []" by code_simp
  have u: "buffer (ex_file ''blob'' ''application/octet-stream'' [1, 2]) = [1, 2]" by code_simp
  have "handler ex_env ex_cfg ex_world ?req =
           (Res_json_success,
            ex_world\<lparr>tmpdir := AList.update
                (chunk_name ex_env (headers ?req ''x-zipline-partial-identifier'') (Some (Num 0)) (Some (Num 2)))
                (buffer (ex_file ''blob'' ''application/octet-stream'' [1, 2])) (tmpdir ex_world)\<rparr>)"
    using intermediate_chunk_is_stored [OF a b c d f p q', of ex_cfg] by (rule conjunct1)
  then have "handler ex_env ex_cfg ex_world ?req
       = (Res_json_success, ex_world\<lparr>tmpdir := [(''zipline_partial_ab_0_2'', [1, 2])]\<rparr>)"
    by (simp add: i n t u)
  with a p n q show ?thesis by (intro conjI)
qed

text \<open>
  Claim C9 as stated leaves every chunk stored for the identifier unchanged, and lets
  every intermediate chunk be stored and acknowledged.
  \<^item> A chunk sent again with the same range replaces the stored one: the bytes 1, 2 kept
    for the range 0 to 2 of the upload \<open>ab\<close> become 9, 9.
  \<^item> A chunk of the upload \<open>a/b\<close> is not stored: its path asks for a subdirectory of
    the temporary directory, the write fails and the exception leaves the handler.
  \<^item> A chunk whose identifier has 300 characters is not stored either: the file name is
    longer than the 255 bytes of the sample file system.
  \<^item> A content-range request without a file part is not acknowledged: reading the
    buffer of the first file throws a \<open>TypeError\<close>.
  \<^item> A content-range request whose headers are not valid, here a max-views header that
    is no number, is answered with the error of the header validation; nothing is stored.
\<close>

theorem chunk_overwritten_or_refused:
  "map_of (tmpdir (ex_world_dir [(''zipline_partial_ab_0_2'', [1, 2])])) ''zipline_partial_ab_0_2'' = Some [1, 2]
   \<and> fst (chunk_file ''ab'' (0, 2, [1, 2])) = ''zipline_partial_ab_0_2''
   \<and> fst (handler ex_env ex_cfg (ex_world_dir [(''zipline_partial_ab_0_2'', [1, 2])])
             (ex_chunk ''ab'' ''a.bin'' ''bytes 0-2/4'' ''false'' [9, 9])) = Res_json_success
   \<and> map_of (tmpdir (snd (handler ex_env ex_cfg (ex_world_dir [(''zipline_partial_ab_0_2'', [1, 2])])
             (ex_chunk ''ab'' ''a.bin'' ''bytes 0-2/4'' ''false'' [9, 9])))) ''zipline_partial_ab_0_2'' = Some [9, 9]
   \<and> handler ex_env ex_cfg ex_world (ex_chunk ''a/b'' ''a.bin'' ''bytes 0-2/4'' ''false'' [1, 2])
       = (Thrown PathError, ex_world)
   \<and> name_max ex_env = 255
   \<and> handler ex_env ex_cfg ex_world
        (ex_chunk (replicate 300 CHR ''a'') ''a.bin'' ''bytes 0-2/4'' ''false'' [1, 2])
       = (Thrown PathError, ex_world)
   \<and> handler ex_env ex_cfg ex_world
        ((ex_chunk ''ab'' ''a.bin'' ''bytes 0-2/4'' ''false'' [1, 2])\<lparr>files := None\<rparr>)
       = (Thrown TypeError, ex_world)
   \<and> handler ex_env ex_cfg ex_world
        (with_header ''max-views'' ''x'' (ex_chunk ''ab'' ''a.bin'' ''bytes 0-2/4'' ''false'' [1, 2]))
       = (Res_error ''invalid max views (invalid number)'', ex_world)
   \<and> tmpdir ex_world = []"
  by code_simp

section \<open>Ingestion of one file of a batch\<close>

lemma create_record_fields:
  assumes "create_record e cfg req im w = (shown, w2)"
  shows "images w2 = images w @ [im]" and "datasource w2 = datasource w"
    and "events w2 = events w @ [Ev_create im]" and "users w2 = users w"
    and "tmpdir w2 = tmpdir w" and "tick w2 = tick w"
  using assms
  by (auto simp: create_record_def Let_def createInvisImage_def prisma_image_create_def
           split: if_splits)

lemma store_file_plain:
  "store_file e opts False im buf w = Inr (datasource_save (image_file im) buf w)"
  by (simp add: store_file_def)

lemma store_file_compressed:
  "store_file e opts True im buf w =
     (case sharp_jpeg e buf (quality e opts) of
        None \<Rightarrow> Inl SharpError
      | Some b \<Rightarrow> Inr (datasource_save (image_file im) b
                        (w\<lparr>events := events w @ [Ev_sharp (quality e opts)]\<rparr>)))"
  by (simp add: store_file_def)

lemma store_file_fields:
  assumes "store_file e opts cu im buf w = Inr w3"
  shows "images w3 = images w" and "users w3 = users w" and "tmpdir w3 = tmpdir w"
    and "\<exists>b. datasource w3 = AList.update (image_file im) b (datasource w)
           \<and> events w3 = events w @ (if cu then [Ev_sharp (quality e opts)] else []) @ [Ev_save (image_file im) b]
           \<and> (if cu then sharp_jpeg e buf (quality e opts) = Some b else b = buf)"
  using assms
  by (auto simp: store_file_def datasource_save_def split: if_splits option.splits)

lemma ingest_file_too_big:
  assumes "size_limit cfg usr < file_size f"
  shows "ingest_file e cfg req usr opts i f w =
           (Inl (Res_error (''file['' @ show_nat i @ '']: size too big'')), w)"
  using assms by (simp add: ingest_file_def)

lemma ingest_file_disabled:
  assumes "\<not> size_limit cfg usr < file_size f"
    and "extension (originalname f) \<in> set (uploader_disabled_extensions cfg)"
  shows "ingest_file e cfg req usr opts i f w =
           (Inl (Res_error (''file['' @ show_nat i @ '']: disabled extension recieved: ''
                             @ extension (originalname f))), w)"
  using assms by (simp add: ingest_file_def Let_def)

lemma ingest_file_pass:
  assumes "\<not> size_limit cfg usr < file_size f"
    and "extension (originalname f) \<notin> set (uploader_disabled_extensions cfg)"
  shows "ingest_file e cfg req usr opts i f w =
     (case create_record e cfg req (whole_image e cfg req usr opts f w) w of
        (shown, w2) \<Rightarrow>
          (case store_file e opts (compression_used e opts (file_mimetype f))
                  (whole_image e cfg req usr opts f w) (buffer f) w2 of
             Inl x \<Rightarrow> (Inl (Thrown x), w2)
           | Inr w3 \<Rightarrow>
               (Inr (response_url e cfg req usr (tick w) shown), w3\<lparr>tick := Suc (tick w)\<rparr>)))"
  using assms by (simp add: ingest_file_def)

lemma truthy_num_validated:
  assumes "\<not> isNaN e p" and "\<not> lt0 e p" and "\<not> gt100 e p"
  shows "truthy_num e p
           \<longleftrightarrow> (\<exists>m d. 0 < m \<and> m \<le> 100 * 2 ^ d \<and> map_option (num_val e) p = Some (VNum m d))"
proof (cases p)
  case None
  then show ?thesis by (simp add: truthy_num_def)
next
  case (Some n)
  show ?thesis
  proof (cases "num_val e n")
    case VNaN
    then show ?thesis using Some assms(1) by (simp add: isNaN_def)
  next
    case (VNum m d)
    then show ?thesis using Some assms(2,3)
      by (auto simp: truthy_num_def lt0_def gt100_def)
  next
    case VPosInf
    then show ?thesis using Some assms(3) by (simp add: gt100_def)
  next
    case VNegInf
    then show ?thesis using Some assms(2) by (simp add: lt0_def)
  qed
qed

lemma ingest_file_Inr:
  assumes "ingest_file e cfg req usr opts i f w = (Inr url, w')"
  shows "\<exists>b. images w' = images w @ [whole_image e cfg req usr opts f w]
     \<and> datasource w' = AList.update (image_file (whole_image e cfg req usr opts f w)) b (datasource w)
     \<and> events w' = events w @ [Ev_create (whole_image e cfg req usr opts f w)]
                     @ (if compression_used e opts (file_mimetype f) then [Ev_sharp (quality e opts)] else [])
                     @ [Ev_save (image_file (whole_image e cfg req usr opts f w)) b]
     \<and> (if compression_used e opts (file_mimetype f)
         then sharp_jpeg e (buffer f) (quality e opts) = Some b else b = buffer f)"
proof -
  let ?im = "whole_image e cfg req usr opts f w"
  have g1: "\<not> size_limit cfg usr < file_size f"
    using assms by (auto simp: ingest_file_def)
  have g2: "extension (originalname f) \<notin> set (uploader_disabled_extensions cfg)"
    using assms g1 by (auto simp: ingest_file_def)
  obtain shown w2 where cr: "create_record e cfg req ?im w = (shown, w2)"
    by (cases "create_record e cfg req ?im w")
  obtain w3 where st: "store_file e opts (compression_used e opts (file_mimetype f)) ?im (buffer f) w2 = Inr w3"
    and w': "w' = w3\<lparr>tick := Suc (tick w)\<rparr>"
    using assms unfolding ingest_file_pass [OF g1 g2] cr
    by (auto split: sum.splits)
  from store_file_fields(4) [OF st] obtain b where
    b: "datasource w3 = AList.update (image_file ?im) b (datasource w2)"
       "events w3 = events w2 @ (if compression_used e opts (file_mimetype f) then [Ev_sharp (quality e opts)] else []) @ [Ev_save (image_file ?im) b]"
       "(if compression_used e opts (file_mimetype f) then sharp_jpeg e (buffer f) (quality e opts) = Some b else b = buffer f)"
    by blast
  have "images w' = images w @ [?im]"
    using w' store_file_fields(1) [OF st] create_record_fields(1) [OF cr] by simp
  moreover have "datasource w' = AList.update (image_file ?im) b (datasource w)"
    using w' b(1) create_record_fields(2) [OF cr] by simp
  moreover have "events w' = events w @ [Ev_create ?im]
                     @ (if compression_used e opts (file_mimetype f) then [Ev_sharp (quality e opts)] else [])
                     @ [Ev_save (image_file ?im) b]"
    using w' b(2) create_record_fields(3) [OF cr] by simp
  ultimately show ?thesis using b(3) by blast
qed

text \<open>
  Claim C2, as the handler implements it on whole uploads.  For a file of a batch whose
  headers are valid and whose ingestion succeeds: the encoder is run with the supplied
  percent as quality, and its output is what is saved, if and only if a compression
  percent was supplied whose value is greater than 0 and at most 100 (\<open>m / 2 ^ d\<close>
  below) and the mimetype of the file begins with \<open>image/\<close>; then the stored name
  ends in \<open>.jpg\<close> and the mimetype of the record is \<open>image/jpeg\<close>, unless the
  \<open>uploadtext\<close> header forces \<open>text/plain\<close>.  Otherwise the bytes are saved as
  they came, under the original extension.
\<close>

theorem compression_on_whole_uploads:
  assumes "parse_options e req = Inr opts"
    and "ingest_file e cfg req usr opts i f w = (Inr url, w')"
  shows "\<exists>im b. images w' = images w @ [im]
     \<and> datasource w' = AList.update (image_file im) b (datasource w)
     \<and> (if (\<exists>m d. 0 < m \<and> m \<le> 100 * 2 ^ d \<and> percent_value e req = Some (VNum m d))
            \<and> startsWith (file_mimetype f) ''image/''
         then sharp_jpeg e (buffer f) (quality e opts) = Some b
            \<and> percent_value e req = Some (quality e opts)
            \<and> events w' = events w @ [Ev_create im, Ev_sharp (quality e opts), Ev_save (image_file im) b]
            \<and> image_file im
                 = file_stem e cfg (tick w) (format_sel opts) (originalname f) @ ''.jpg''
            \<and> mimetype im = Some (if truthy_str (headers req ''uploadtext'') then ''text/plain''
                                  else ''image/jpeg'')
         else b = buffer f
            \<and> events w' = events w @ [Ev_create im, Ev_save (image_file im) (buffer f)]
            \<and> image_file im
                 = file_stem e cfg (tick w) (format_sel opts) (originalname f) @ ''.''
                     @ extension (originalname f)
            \<and> mimetype im = Some (if truthy_str (headers req ''uploadtext'') then ''text/plain''
                                  else file_mimetype f))"
proof -
  let ?im = "whole_image e cfg req usr opts f w"
  let ?cu = "compression_used e opts (file_mimetype f)"
  have pct: "imageCompressionPercent opts = header_num (headers req ''image-compression-percent'')"
    by (rule parse_options_fields(2) [OF assms(1)])
  have pv: "percent_value e req = map_option (num_val e) (imageCompressionPercent opts)"
    by (simp add: percent_value_def pct)
  define C where "C \<longleftrightarrow> (\<exists>m d. 0 < m \<and> m \<le> 100 * 2 ^ d \<and> percent_value e req = Some (VNum m d))
            \<and> startsWith (file_mimetype f) ''image/''"
  have cuC: "?cu = C"
    unfolding C_def compression_used_def pv
    using truthy_num_validated [OF parse_options_fields(4,5,6) [OF assms(1)]] by simp
  obtain b where b: "images w' = images w @ [?im]"
     "datasource w' = AList.update (image_file ?im) b (datasource w)"
     "events w' = events w @ [Ev_create ?im]
                     @ (if ?cu then [Ev_sharp (quality e opts)] else [])
                     @ [Ev_save (image_file ?im) b]"
     "if ?cu then sharp_jpeg e (buffer f) (quality e opts) = Some b else b = buffer f"
    using ingest_file_Inr [OF assms(2)] by blast
  have nm: "image_file ?im = file_stem e cfg (tick w) (format_sel opts) (originalname f) @ ''.''
          @ (if ?cu then ''jpg'' else extension (originalname f))"
    by (simp add: whole_image_def image_data_def)
  have mt: "mimetype ?im = Some (if truthy_str (headers req ''uploadtext'') then ''text/plain''
              else if ?cu then ''image/jpeg'' else file_mimetype f)"
    by (simp add: whole_image_def image_data_def)
  have "images w' = images w @ [?im]
     \<and> datasource w' = AList.update (image_file ?im) b (datasource w)
     \<and> (if C
         then sharp_jpeg e (buffer f) (quality e opts) = Some b
            \<and> percent_value e req = Some (quality e opts)
            \<and> events w' = events w @ [Ev_create ?im, Ev_sharp (quality e opts), Ev_save (image_file ?im) b]
            \<and> image_file ?im
                 = file_stem e cfg (tick w) (format_sel opts) (originalname f) @ ''.jpg''
            \<and> mimetype ?im = Some (if truthy_str (headers req ''uploadtext'') then ''text/plain''
                                  else ''image/jpeg'')
         else b = buffer f
            \<and> events w' = events w @ [Ev_create ?im, Ev_save (image_file ?im) (buffer f)]
            \<and> image_file ?im
                 = file_stem e cfg (tick w) (format_sel opts) (originalname f) @ ''.''
                     @ extension (originalname f)
            \<and> mimetype ?im = Some (if truthy_str (headers req ''uploadtext'') then ''text/plain''
                                  else file_mimetype f))"
  proof (cases C)
    case True
    then obtain m d where q: "percent_value e req = Some (VNum m d)"
      unfolding C_def by blast
    then obtain n where n: "imageCompressionPercent opts = Some n" "num_val e n = VNum m d"
      unfolding pv by (cases "imageCompressionPercent opts") simp_all
    then have "quality e opts = VNum m d" by (simp add: quality_def)
    then have hq: "percent_value e req = Some (quality e opts)"
      using q by simp
    from True have T: "?cu" by (simp add: cuC)
    show ?thesis using b nm mt hq by (simp add: True T)
  next
    case False
    then have F: "\<not> ?cu" by (simp add: cuC)
    show ?thesis using b nm mt by (simp add: False F)
  qed
  then show ?thesis unfolding C_def by blast
qed

theorem compression_on_whole_uploads_witness:
  "parse_options ex_env (ex_whole [''image-compression-percent'' \<mapsto> ''80''] [ex_png])
     = Inr (ex_opts\<lparr>imageCompressionPercent := Some (Num 80)\<rparr>)
   \<and> fst (ingest_file ex_env ex_cfg (ex_whole [''image-compression-percent'' \<mapsto> ''80''] [ex_png])
             ex_user (ex_opts\<lparr>imageCompressionPercent := Some (Num 80)\<rparr>) 0 ex_png ex_world)
       = Inr ''http://example.org/u/00.jpg''
   \<and> startsWith (file_mimetype ex_png) ''image/''
   \<and> percent_value ex_env (ex_whole [''image-compression-percent'' \<mapsto> ''80''] [ex_png])
       = Some (VNum 80 0)
   \<and> (\<exists>im. images (snd (ingest_file ex_env ex_cfg
                  (ex_whole [''image-compression-percent'' \<mapsto> ''80''] [ex_png])
                  ex_user (ex_opts\<lparr>imageCompressionPercent := Some (Num 80)\<rparr>) 0 ex_png ex_world))
              = images ex_world @ [im]
            \<and> image_file im = ''00.jpg'' \<and> mimetype im = Some ''image/jpeg'')"
proof -
  let ?req = "ex_whole [''image-compression-percent'' \<mapsto> ''80''] [ex_png]"
  let ?opts = "ex_opts\<lparr>imageCompressionPercent := Some (Num 80)\<rparr>"
  let ?w' = "snd (ingest_file ex_env ex_cfg ?req ex_user ?opts 0 ex_png ex_world)"
  have p: "parse_options ex_env ?req = Inr ?opts" by code_simp
  have r: "fst (ingest_file ex_env ex_cfg ?req ex_user ?opts 0 ex_png ex_world)
             = Inr ''http://example.org/u/00.jpg''" by code_simp
  then have i: "ingest_file ex_env ex_cfg ?req ex_user ?opts 0 ex_png ex_world
             = (Inr ''http://example.org/u/00.jpg'', ?w')"
    by (simp add: prod_eq_iff)
  have m: "startsWith (file_mimetype ex_png) ''image/''" by code_simp
  have h: "percent_value ex_env ?req = Some (VNum 80 0)" by code_simp
  have u: "\<not> truthy_str (headers ?req ''uploadtext'')" by code_simp
  have s: "file_stem ex_env ex_cfg (tick ex_world) (format_sel ?opts) (originalname ex_png) = ''00''"
    by code_simp
  have "(0::int) < 80 \<and> (80::int) \<le> 100 * 2 ^ (0::nat) \<and> percent_value ex_env ?req = Some (VNum 80 0)"
    using h by simp
  then have "\<exists>m d. (0::int) < m \<and> m \<le> 100 * 2 ^ d \<and> percent_value ex_env ?req = Some (VNum m d)"
    by blast
  then have c: "(\<exists>m d. 0 < m \<and> m \<le> 100 * 2 ^ d \<and> percent_value ex_env ?req = Some (VNum m d))
            \<and> startsWith (file_mimetype ex_png) ''image/''"
    using m by simp
  obtain im b where "images ?w' = images ex_world @ [im]"
    and "image_file im = file_stem ex_env ex_cfg (tick ex_world) (format_sel ?opts) (originalname ex_png) @ ''.jpg''"
    and "mimetype im = Some (if truthy_str (headers ?req ''uploadtext'') then ''text/plain'' else ''image/jpeg'')"
    using compression_on_whole_uploads [OF p i] unfolding if_P [OF c] by blast
  then have "\<exists>im. images ?w' = images ex_world @ [im] \<and> image_file im = ''00.jpg''
                 \<and> mimetype im = Some ''image/jpeg''"
    using s u by simp
  with p r m h show ?thesis by (intro conjI)
qed

text \<open>
  Claim C2 as stated compresses whenever a percent in the range 0 to 100 was supplied
  for an image, and gives every compressed upload a record of mimetype
  \<open>image/jpeg\<close>.
  \<^item> A whole upload of a PNG with the percent 0 is not compressed: the percent is
    falsy, the encoder is not run, the bytes are saved as they came under the name
    \<open>00.png\<close>, and the record keeps the mimetype \<open>image/png\<close>.
  \<^item> A whole upload of a PNG with the percent 80 and the \<open>uploadtext\<close> header is
    compressed and stored as \<open>.jpg\<close>, and its record has the mimetype
    \<open>text/plain\<close>.
  \<^item> A chunked upload of a PNG with the percent 80 is completed under the name
    \<open>00.jpg\<close>, but the encoder is not run: the bytes are saved as they were
    sent and the record keeps the mimetype \<open>image/png\<close>.
\<close>

theorem compression_claim_fails_on_zero_uploadtext_and_chunks:
  "percent_value ex_env (ex_whole [''image-compression-percent'' \<mapsto> ''0''] [ex_png]) = Some (VNum 0 0)
   \<and> startsWith (file_mimetype ex_png) ''image/''
   \<and> fst (handler ex_env ex_cfg ex_world
            (ex_whole [''image-compression-percent'' \<mapsto> ''0''] [ex_png]))
       = Res_json_files [''http://example.org/u/00.png''] None
   \<and> map (\<lambda>im. (image_file im, mimetype im))
         (images (snd (handler ex_env ex_cfg ex_world
            (ex_whole [''image-compression-percent'' \<mapsto> ''0''] [ex_png]))))
       = [(''00.png'', Some ''image/png'')]
   \<and> drop 1 (events (snd (handler ex_env ex_cfg ex_world
            (ex_whole [''image-compression-percent'' \<mapsto> ''0''] [ex_png]))))
       = [Ev_save ''00.png'' [1, 2, 3]]
   \<and> compression_used ex_env (ex_opts\<lparr>imageCompressionPercent := Some (Num 80)\<rparr>) (file_mimetype ex_png)
   \<and> fst (handler ex_env ex_cfg ex_world
            (ex_whole [''image-compression-percent'' \<mapsto> ''80'', ''uploadtext'' \<mapsto> ''true''] [ex_png]))
       = Res_json_files [''http://example.org/u/00.jpg''] None
   \<and> map (\<lambda>im. (image_file im, mimetype im))
         (images (snd (handler ex_env ex_cfg ex_world
            (ex_whole [''image-compression-percent'' \<mapsto> ''80'', ''uploadtext'' \<mapsto> ''true''] [ex_png]))))
       = [(''00.jpg'', Some ''text/plain'')]
   \<and> drop 1 (events (snd (handler ex_env ex_cfg ex_world
            (ex_whole [''image-compression-percent'' \<mapsto> ''80'', ''uploadtext'' \<mapsto> ''true''] [ex_png]))))
       = [Ev_sharp (VNum 80 0), Ev_save ''00.jpg'' [1]]
   \<and> fst (handler ex_env ex_cfg ex_world
            (with_header ''image-compression-percent'' ''80''
               (with_header ''x-zipline-partial-mimetype'' ''image/png''
                  (ex_chunk ''ab'' ''cat.png'' ''bytes 0-3/3'' ''true'' [1, 2, 3]))))
       = Res_json_files [''http://example.org/u/00.jpg''] None
   \<and> map (\<lambda>im. (image_file im, mimetype im))
         (images (snd (handler ex_env ex_cfg ex_world
            (with_header ''image-compression-percent'' ''80''
               (with_header ''x-zipline-partial-mimetype'' ''image/png''
                  (ex_chunk ''ab'' ''cat.png'' ''bytes 0-3/3'' ''true'' [1, 2, 3]))))))
       = [(''00.jpg'', Some ''image/png'')]
   \<and> drop 1 (events (snd (handler ex_env ex_cfg ex_world
            (with_header ''image-compression-percent'' ''80''
               (with_header ''x-zipline-partial-mimetype'' ''image/png''
                  (ex_chunk ''ab'' ''cat.png'' ''bytes 0-3/3'' ''true'' [1, 2, 3]))))))
       = [Ev_save ''00.jpg'' [1, 2, 3]]"
  by code_simp

section \<open>Batches with a refused file\<close>

lemma saves_append: "saves (xs @ ys) = saves xs + saves ys"
  by (induction xs rule: saves.induct) simp_all

lemma ingest_file_step:
  assumes "ingest_file e cfg req usr opts i f w = (res, w1)"
  shows "length (images w1) \<le> Suc (length (images w))"
    and "saves (events w1) \<le> Suc (saves (events w))"
    and "\<And>r. res = Inl r \<Longrightarrow> is_rejection r"
proof -
  let ?im = "whole_image e cfg req usr opts f w"
  have "length (images w1) \<le> Suc (length (images w))
      \<and> saves (events w1) \<le> Suc (saves (events w))
      \<and> (\<forall>r. res = Inl r \<longrightarrow> is_rejection r)"
  proof (cases "size_limit cfg usr < file_size f")
    case True
    then show ?thesis using assms by (auto simp: ingest_file_too_big is_rejection_def)
  next
    case g1: False
    show ?thesis
    proof (cases "extension (originalname f) \<in> set (uploader_disabled_extensions cfg)")
      case True
      then show ?thesis using assms g1 by (auto simp: ingest_file_disabled is_rejection_def)
    next
      case g2: False
      obtain shown w2 where cr: "create_record e cfg req ?im w = (shown, w2)"
        by (cases "create_record e cfg req ?im w")
      show ?thesis
      proof (cases res)
        case (Inl r)
        then have "r = Thrown SharpError \<or> (\<exists>x. r = Thrown x)" and "w1 = w2"
          using assms unfolding ingest_file_pass [OF g1 g2] cr
          by (auto split: sum.splits)
        then show ?thesis
          using Inl create_record_fields(1,3) [OF cr]
          by (auto simp: is_rejection_def saves_append)
      next
        case (Inr url)
        from ingest_file_Inr [OF assms [unfolded Inr]] show ?thesis
          using Inr by (auto simp: saves_append)
      qed
    qed
  qed
  then show "length (images w1) \<le> Suc (length (images w))"
    and "saves (events w1) \<le> Suc (saves (events w))"
    and "\<And>r. res = Inl r \<Longrightarrow> is_rejection r" by blast+
qed

lemma ingest_file_refused:
  assumes "refused cfg usr f"
  shows "\<exists>m. ingest_file e cfg req usr opts i f w = (Inl (Res_error m), w)"
proof (cases "size_limit cfg usr < file_size f")
  case True
  then show ?thesis by (simp add: ingest_file_too_big)
next
  case False
  then show ?thesis using assms by (simp add: ingest_file_disabled refused_def)
qed

lemma upload_files_refused:
  assumes "j < length fs" and "refused cfg usr (fs ! j)"
  shows "\<exists>r w'. upload_files e cfg req usr opts k fs urls w = (Inl r, w')
     \<and> is_rejection r
     \<and> length (images w') \<le> length (images w) + j
     \<and> saves (events w') \<le> saves (events w) + j
     \<and> (j = 0 \<longrightarrow> w' = w)"
  using assms
proof (induction fs arbitrary: j k urls w)
  case Nil
  then show ?case by simp
next
  case (Cons f fs)
  show ?case
  proof (cases j)
    case 0
    then have "refused cfg usr f" using Cons.prems by simp
    then obtain m where "ingest_file e cfg req usr opts k f w = (Inl (Res_error m), w)"
      using ingest_file_refused by blast
    then show ?thesis using 0 by (simp add: is_rejection_def)
  next
    case (Suc j')
    then have j': "j' < length fs" "refused cfg usr (fs ! j')" using Cons.prems by simp_all
    obtain res w1 where st: "ingest_file e cfg req usr opts k f w = (res, w1)"
      by (cases "ingest_file e cfg req usr opts k f w")
    note b = ingest_file_step [OF st]
    show ?thesis
    proof (cases res)
      case (Inl r)
      then show ?thesis using st b Suc by simp
    next
      case (Inr url)
      from Cons.IH [OF j', of "Suc k" "urls @ [url]" w1]
      obtain r w' where "upload_files e cfg req usr opts (Suc k) fs (urls @ [url]) w1 = (Inl r, w')"
        "is_rejection r" "length (images w') \<le> length (images w1) + j'"
        "saves (events w') \<le> saves (events w1) + j'" by blast
      then show ?thesis using st Inr b(1,2) Suc by simp
    qed
  qed
qed

lemma check_ratelimit_cases:
  assumes "check_ratelimit e usr w = (res, w1)"
  shows "images w1 = images w" and "datasource w1 = datasource w" and "events w1 = events w"
    and "tmpdir w1 = tmpdir w"
    and "\<And>r. res = Some r \<Longrightarrow> \<exists>ms. r = Res_ratelimited ms"
  using assms
  by (auto simp: check_ratelimit_def Let_def prisma_user_update_def split: option.splits if_splits)

lemma whole_upload_refused:
  assumes "files req = Some fs" and "j < length fs" and "refused cfg usr (fs ! j)"
  shows "(is_rejection (fst (whole_upload e cfg req usr opts w))
           \<or> (\<exists>ms. fst (whole_upload e cfg req usr opts w) = Res_ratelimited ms))
     \<and> length (images (snd (whole_upload e cfg req usr opts w))) \<le> length (images w) + j
     \<and> saves (events (snd (whole_upload e cfg req usr opts w))) \<le> saves (events w) + j
     \<and> (j = 0 \<longrightarrow> images (snd (whole_upload e cfg req usr opts w)) = images w
                  \<and> datasource (snd (whole_upload e cfg req usr opts w)) = datasource w
                  \<and> events (snd (whole_upload e cfg req usr opts w)) = events w)"
proof -
  obtain res w1 where ck: "check_ratelimit e usr w = (res, w1)"
    by (cases "check_ratelimit e usr w")
  note c = check_ratelimit_cases [OF ck]
  show ?thesis
  proof (cases res)
    case (Some r)
    then obtain ms where "r = Res_ratelimited ms" using c(5) by blast
    then show ?thesis using Some ck c(1,2,3) by (simp add: whole_upload_def)
  next
    case None
    obtain f fs' where fs: "fs = f # fs'" using assms(2) by (cases fs) auto
    from upload_files_refused [OF assms(2,3), of e req opts 0 "[]" w1]
    obtain r w' where u: "upload_files e cfg req usr opts 0 fs [] w1 = (Inl r, w')"
        "is_rejection r" "length (images w') \<le> length (images w1) + j"
        "saves (events w') \<le> saves (events w1) + j" "j = 0 \<longrightarrow> w' = w1" by blast
    have "whole_upload e cfg req usr opts w = (r, w')"
      using None ck u(1) assms(1) fs by (simp add: whole_upload_def process_batch_def)
    then show ?thesis using u(2,3,4,5) c(1,2,3) by auto
  qed
qed

text \<open>
  Claim C4, as the handler implements it.  A whole upload that passes the
  authentication and the header validation and whose file at index \<open>j\<close> has a
  disabled extension is not answered with a success: the answer is an error (or the
  cooldown refusal).  The loop checks each file just before it ingests it, so the files
  before index \<open>j\<close> may have been ingested: at most \<open>j\<close> records are created and at
  most \<open>j\<close> writes reach the blob store, none of them for the file at index \<open>j\<close> or
  a later one.  When the first file is the one refused, no record is created and
  nothing is written.
\<close>

theorem disabled_extension_rejects_batch:
  assumes "reaches_upload e w req usr opts"
    and "\<not> truthy_str (headers req ''content-range'')"
    and "files req = Some fs" and "j < length fs"
    and "extension (originalname (fs ! j)) \<in> set (uploader_disabled_extensions cfg)"
  shows "(is_rejection (fst (handler e cfg w req))
           \<or> (\<exists>ms. fst (handler e cfg w req) = Res_ratelimited ms))
     \<and> length (images (snd (handler e cfg w req))) \<le> length (images w) + j
     \<and> saves (events (snd (handler e cfg w req))) \<le> saves (events w) + j
     \<and> (j = 0 \<longrightarrow> images (snd (handler e cfg w req)) = images w
                  \<and> datasource (snd (handler e cfg w req)) = datasource w
                  \<and> events (snd (handler e cfg w req)) = events w)"
proof -
  have "refused cfg usr (fs ! j)" using assms(5) by (simp add: refused_def)
  from whole_upload_refused [OF assms(3,4) this]
  show ?thesis unfolding handler_whole [OF assms(1,2)] .
qed

theorem disabled_extension_rejects_batch_witness:
  "reaches_upload ex_env ex_world (ex_whole Map.empty [ex_exe, ex_png]) ex_user ex_opts
   \<and> \<not> truthy_str (headers (ex_whole Map.empty [ex_exe, ex_png]) ''content-range'')
   \<and> files (ex_whole Map.empty [ex_exe, ex_png]) = Some [ex_exe, ex_png]
   \<and> extension (originalname ([ex_exe, ex_png] ! 0)) \<in> set (uploader_disabled_extensions ex_cfg)
   \<and> fst (handler ex_env ex_cfg ex_world (ex_whole Map.empty [ex_exe, ex_png]))
       = Res_error ''file[0]: disabled extension recieved: exe''
   \<and> images (snd (handler ex_env ex_cfg ex_world (ex_whole Map.empty [ex_exe, ex_png]))) = images ex_world
   \<and> datasource (snd (handler ex_env ex_cfg ex_world (ex_whole Map.empty [ex_exe, ex_png])))
       = datasource ex_world"
proof -
  let ?req = "ex_whole Map.empty [ex_exe, ex_png]"
  have a: "reaches_upload ex_env ex_world ?req ex_user ex_opts" by code_simp
  have b: "\<not> truthy_str (headers ?req ''content-range'')" by code_simp
  have c: "files ?req = Some [ex_exe, ex_png]" by code_simp
  have d: "0 < length [ex_exe, ex_png]" by simp
  have x: "extension (originalname ([ex_exe, ex_png] ! 0)) \<in> set (uploader_disabled_extensions ex_cfg)"
    by code_simp
  have r: "fst (handler ex_env ex_cfg ex_world ?req) = Res_error ''file[0]: disabled extension recieved: exe''"
    by code_simp
  from disabled_extension_rejects_batch [OF a b c d x]
  have "images (snd (handler ex_env ex_cfg ex_world ?req)) = images ex_world
      \<and> datasource (snd (handler ex_env ex_cfg ex_world ?req)) = datasource ex_world"
    by simp
  with a b c x r show ?thesis by (intro conjI) simp_all
qed

text \<open>
  Claim C4 as stated promises that no record is created and no bytes are written also
  when the refused file is not the first of the batch.  In a batch of a PNG followed by
  an executable the request is answered with the error for the file at index 1, after
  the PNG has got its record and its bytes have been saved.
\<close>

theorem files_before_disabled_extension_are_stored:
  "extension (originalname ([ex_png, ex_exe] ! 1)) \<in> set (uploader_disabled_extensions ex_cfg)
   \<and> images ex_world = [] \<and> datasource ex_world = []
   \<and> fst (handler ex_env ex_cfg ex_world (ex_whole Map.empty [ex_png, ex_exe]))
       = Res_error ''file[1]: disabled extension recieved: exe''
   \<and> map image_file (images (snd (handler ex_env ex_cfg ex_world (ex_whole Map.empty [ex_png, ex_exe]))))
       = [''00.png'']
   \<and> datasource (snd (handler ex_env ex_cfg ex_world (ex_whole Map.empty [ex_png, ex_exe])))
       = [(''00.png'', [1, 2, 3])]"
  by code_simp

lemma limits_irrelevant:
  "uploader_disabled_extensions (cfg\<lparr>uploader_admin_limit := a, uploader_user_limit := b\<rparr>)
     = uploader_disabled_extensions cfg"
  "file_stem e (cfg\<lparr>uploader_admin_limit := a, uploader_user_limit := b\<rparr>) t fmt original
     = file_stem e cfg t fmt original"
  "create_record e (cfg\<lparr>uploader_admin_limit := a, uploader_user_limit := b\<rparr>) req im w
     = create_record e cfg req im w"
  "server_url (cfg\<lparr>uploader_admin_limit := a, uploader_user_limit := b\<rparr>) req shown
     = server_url cfg req shown"
  by (simp_all add: file_stem_def create_record_def createInvisImage_def server_url_def
        route_part_def Let_def split: option.splits ImageFormat.splits)

lemma finish_partial_limits:
  "finish_partial e (cfg\<lparr>uploader_admin_limit := a, uploader_user_limit := b\<rparr>) req usr opts chunks w
     = finish_partial e cfg req usr opts chunks w"
  unfolding finish_partial_def limits_irrelevant by (rule refl)

lemma partial_upload_limits:
  "partial_upload e (cfg\<lparr>uploader_admin_limit := a, uploader_user_limit := b\<rparr>) req usr opts cr w
     = partial_upload e cfg req usr opts cr w"
  unfolding partial_upload_def finish_partial_limits by (rule refl)

lemma handler_chunked_limits:
  assumes "truthy_str (headers req ''content-range'')"
  shows "handler e (cfg\<lparr>uploader_admin_limit := a, uploader_user_limit := b\<rparr>) w req
           = handler e cfg w req"
proof -
  obtain cr where cr: "headers req ''content-range'' = Some cr" "cr \<noteq> []"
    using assms by (auto simp: truthy_str_def split: option.splits)
  show ?thesis
    by (simp add: handler_def cr partial_upload_limits split: option.splits sum.splits)
qed

text \<open>
  Claim C10.  On a whole upload that passes the authentication and the header
  validation, a file at index \<open>j\<close> larger than the limit of the role of the user makes
  the answer an error (or the cooldown refusal), and at most the \<open>j\<close> files before it
  have got a record: the file itself has none.  On a request with a content-range
  header the two limits are never read: the handler does the same whatever they are.
\<close>

theorem size_limit_only_on_whole_uploads:
  "(reaches_upload e w req usr opts \<and> \<not> truthy_str (headers req ''content-range'')
      \<and> files req = Some fs \<and> j < length fs \<and> size_limit cfg usr < file_size (fs ! j)
     \<longrightarrow> (is_rejection (fst (handler e cfg w req))
            \<or> (\<exists>ms. fst (handler e cfg w req) = Res_ratelimited ms))
         \<and> length (images (snd (handler e cfg w req))) \<le> length (images w) + j)
   \<and> (truthy_str (headers req ''content-range'')
     \<longrightarrow> handler e (cfg\<lparr>uploader_admin_limit := a, uploader_user_limit := b\<rparr>) w req
           = handler e cfg w req)"
proof (intro conjI impI)
  assume h: "reaches_upload e w req usr opts \<and> \<not> truthy_str (headers req ''content-range'')
      \<and> files req = Some fs \<and> j < length fs \<and> size_limit cfg usr < file_size (fs ! j)"
  then have "refused cfg usr (fs ! j)" by (simp add: refused_def)
  from whole_upload_refused [OF _ _ this, of req e opts w] h
  have *: "(is_rejection (fst (whole_upload e cfg req usr opts w))
           \<or> (\<exists>ms. fst (whole_upload e cfg req usr opts w) = Res_ratelimited ms))
     \<and> length (images (snd (whole_upload e cfg req usr opts w))) \<le> length (images w) + j"
    by blast
  have hw: "handler e cfg w req = whole_upload e cfg req usr opts w"
    using h handler_whole by blast
  show "is_rejection (fst (handler e cfg w req))
            \<or> (\<exists>ms. fst (handler e cfg w req) = Res_ratelimited ms)"
    unfolding hw using * by blast
  show "length (images (snd (handler e cfg w req))) \<le> length (images w) + j"
    unfolding hw using * by blast
next
  assume "truthy_str (headers req ''content-range'')"
  then show "handler e (cfg\<lparr>uploader_admin_limit := a, uploader_user_limit := b\<rparr>) w req
           = handler e cfg w req" by (rule handler_chunked_limits)
qed

theorem size_limit_only_on_whole_uploads_witness:
  "reaches_upload ex_env ex_world (ex_whole Map.empty [ex_png, ex_big]) ex_user ex_opts
   \<and> \<not> truthy_str (headers (ex_whole Map.empty [ex_png, ex_big]) ''content-range'')
   \<and> files (ex_whole Map.empty [ex_png, ex_big]) = Some [ex_png, ex_big]
   \<and> size_limit ex_cfg ex_user < file_size ([ex_png, ex_big] ! 1)
   \<and> fst (handler ex_env ex_cfg ex_world (ex_whole Map.empty [ex_png, ex_big]))
       = Res_error ''file[1]: size too big''
   \<and> length (images (snd (handler ex_env ex_cfg ex_world (ex_whole Map.empty [ex_png, ex_big]))))
       \<le> length (images ex_world) + 1
   \<and> truthy_str (headers (ex_chunk ''ab'' ''big.bin'' ''bytes 0-5/5'' ''true'' [7, 7, 7, 7, 7]) ''content-range'')
   \<and> handler ex_env (ex_cfg\<lparr>uploader_admin_limit := 0, uploader_user_limit := 0\<rparr>) ex_world
         (ex_chunk ''ab'' ''big.bin'' ''bytes 0-5/5'' ''true'' [7, 7, 7, 7, 7])
       = handler ex_env ex_cfg ex_world (ex_chunk ''ab'' ''big.bin'' ''bytes 0-5/5'' ''true'' [7, 7, 7, 7, 7])
   \<and> datasource (snd (handler ex_env ex_cfg ex_world
         (ex_chunk ''ab'' ''big.bin'' ''bytes 0-5/5'' ''true'' [7, 7, 7, 7, 7])))
       = [(''00.bin'', [7, 7, 7, 7, 7])]"
proof -
  let ?req = "ex_whole Map.empty [ex_png, ex_big]"
  let ?chk = "ex_chunk ''ab'' ''big.bin'' ''bytes 0-5/5'' ''true'' [7, 7, 7, 7, 7]"
  have a: "reaches_upload ex_env ex_world ?req ex_user ex_opts" by code_simp
  have b: "\<not> truthy_str (headers ?req ''content-range'')" by code_simp
  have c: "files ?req = Some [ex_png, ex_big]" by code_simp
  have d: "(1::nat) < length [ex_png, ex_big]" by simp
  have x: "size_limit ex_cfg ex_user < file_size ([ex_png, ex_big] ! 1)" by code_simp
  have r: "fst (handler ex_env ex_cfg ex_world ?req) = Res_error ''file[1]: size too big''"
    by code_simp
  have t: "truthy_str (headers ?chk ''content-range'')" by code_simp
  have s: "datasource (snd (handler ex_env ex_cfg ex_world ?chk)) = [(''00.bin'', [7, 7, 7, 7, 7])]"
    by code_simp
  have 1: "length (images (snd (handler ex_env ex_cfg ex_world ?req))) \<le> length (images ex_world) + 1"
    using size_limit_only_on_whole_uploads
            [of ex_env ex_world ?req ex_user ex_opts "[ex_png, ex_big]" 1 ex_cfg]
          a b c d x by blast
  have 2: "handler ex_env (ex_cfg\<lparr>uploader_admin_limit := 0, uploader_user_limit := 0\<rparr>) ex_world ?chk
         = handler ex_env ex_cfg ex_world ?chk"
    using size_limit_only_on_whole_uploads
            [of ex_env ex_world ?chk ex_user ex_opts "[]" 0 ex_cfg 0 0] t by blast
  from a b c x r 1 t 2 s show ?thesis by (intro conjI)
qed

section \<open>The order of record creation and storage\<close>

lemma created_before_saved_mono:
  assumes "set seen \<subseteq> set seen'" and "created_before_saved seen es"
  shows "created_before_saved seen' es"
  using assms
proof (induction es arbitrary: seen seen')
  case Nil
  then show ?case by simp
next
  case (Cons ev es)
  show ?case
  proof (cases ev)
    case (Ev_create im)
    have sub: "set (image_file im # seen) \<subseteq> set (image_file im # seen')"
      using Cons.prems(1) by auto
    have "created_before_saved (image_file im # seen) es"
      using Cons.prems(2) Ev_create by simp
    from Cons.IH [OF sub this] show ?thesis using Ev_create by simp
  next
    case (Ev_sharp q)
    then show ?thesis using Cons by simp
  next
    case (Ev_save name data)
    then show ?thesis using Cons by auto
  qed
qed

lemma created_before_saved_append:
  assumes "created_before_saved seen xs" and "created_before_saved seen ys"
  shows "created_before_saved seen (xs @ ys)"
  using assms
proof (induction xs arbitrary: seen)
  case Nil
  then show ?case by simp
next
  case (Cons ev xs)
  show ?case
  proof (cases ev)
    case (Ev_create im)
    have "created_before_saved (image_file im # seen) ys"
      by (rule created_before_saved_mono [OF _ Cons.prems(2)]) auto
    then show ?thesis using Cons.IH Cons.prems(1) Ev_create by simp
  next
    case (Ev_sharp q)
    then show ?thesis using Cons by simp
  next
    case (Ev_save name data)
    then show ?thesis using Cons by simp
  qed
qed

lemma orderly_refl: "orderly w w"
  by (simp add: orderly_def)

lemma orderly_same: "events w' = events w \<Longrightarrow> orderly w w'"
  by (simp add: orderly_def)

lemma orderly_trans:
  assumes "orderly w w1" and "orderly w1 w2"
  shows "orderly w w2"
proof -
  obtain a where a: "events w1 = events w @ a" "created_before_saved [] a"
    using assms(1) by (auto simp: orderly_def)
  obtain b where b: "events w2 = events w1 @ b" "created_before_saved [] b"
    using assms(2) by (auto simp: orderly_def)
  have "events w2 = events w @ (a @ b)" using a(1) b(1) by simp
  moreover have "created_before_saved [] (a @ b)"
    by (rule created_before_saved_append [OF a(2) b(2)])
  ultimately show ?thesis unfolding orderly_def by blast
qed

lemma ingest_file_orderly:
  assumes "ingest_file e cfg req usr opts i f w = (res, w1)"
  shows "orderly w w1"
proof -
  let ?im = "whole_image e cfg req usr opts f w"
  show ?thesis
  proof (cases "refused cfg usr f")
    case True
    then obtain m where "ingest_file e cfg req usr opts i f w = (Inl (Res_error m), w)"
      using ingest_file_refused by blast
    then show ?thesis using assms by (simp add: orderly_refl)
  next
    case False
    then have g: "\<not> size_limit cfg usr < file_size f"
        "extension (originalname f) \<notin> set (uploader_disabled_extensions cfg)"
      by (simp_all add: refused_def)
    obtain shown w2 where cr: "create_record e cfg req ?im w = (shown, w2)"
      by (cases "create_record e cfg req ?im w")
    show ?thesis
    proof (cases res)
      case (Inl r)
      then have "w1 = w2"
        using assms unfolding ingest_file_pass [OF g] cr by (auto split: sum.splits)
      then have "events w1 = events w @ [Ev_create ?im]"
        using create_record_fields(3) [OF cr] by simp
      then show ?thesis unfolding orderly_def by simp
    next
      case (Inr url)
      from ingest_file_Inr [OF assms [unfolded Inr]] obtain b where
        "events w1 = events w @ [Ev_create ?im]
                     @ (if compression_used e opts (file_mimetype f) then [Ev_sharp (quality e opts)] else [])
                     @ [Ev_save (image_file ?im) b]" by blast
      then show ?thesis unfolding orderly_def by simp
    qed
  qed
qed

lemma upload_files_orderly:
  assumes "upload_files e cfg req usr opts k fs urls w = (res, w')"
  shows "orderly w w'"
  using assms
proof (induction fs arbitrary: k urls w)
  case Nil
  then show ?case by (simp add: orderly_refl)
next
  case (Cons f fs)
  obtain r1 w1 where st: "ingest_file e cfg req usr opts k f w = (r1, w1)"
    by (cases "ingest_file e cfg req usr opts k f w")
  note o1 = ingest_file_orderly [OF st]
  show ?case
  proof (cases r1)
    case (Inl r)
    then show ?thesis using Cons.prems st o1 by simp
  next
    case (Inr url)
    then have "upload_files e cfg req usr opts (Suc k) fs (urls @ [url]) w1 = (res, w')"
      using Cons.prems st by simp
    from Cons.IH [OF this] o1 show ?thesis by (rule orderly_trans [rotated])
  qed
qed

lemma arm_ratelimit_events: "events (arm_ratelimit e cfg usr w) = events w"
  by (simp add: arm_ratelimit_def prisma_user_update_def)

lemma process_batch_orderly: "orderly w (snd (process_batch e cfg req usr opts w))"
proof (cases "files req")
  case None
  then show ?thesis by (simp add: process_batch_def orderly_refl)
next
  case (Some fs)
  show ?thesis
  proof (cases fs)
    case Nil
    then show ?thesis using Some by (simp add: process_batch_def orderly_refl)
  next
    case (Cons f fs')
    obtain res w' where u: "upload_files e cfg req usr opts 0 (f # fs') [] w = (res, w')"
      by (cases "upload_files e cfg req usr opts 0 (f # fs') [] w")
    note o = upload_files_orderly [OF u]
    show ?thesis
    proof (cases res)
      case (Inl r)
      then show ?thesis using Some Cons u o by (simp add: process_batch_def)
    next
      case (Inr urls)
      have "orderly w' (arm_ratelimit e cfg usr w')"
        by (rule orderly_same) (rule arm_ratelimit_events)
      with o have "orderly w (arm_ratelimit e cfg usr w')" by (rule orderly_trans)
      then show ?thesis using Some Cons u Inr by (simp add: process_batch_def)
    qed
  qed
qed

lemma whole_upload_orderly: "orderly w (snd (whole_upload e cfg req usr opts w))"
proof -
  obtain res w1 where ck: "check_ratelimit e usr w = (res, w1)"
    by (cases "check_ratelimit e usr w")
  have o1: "orderly w w1" by (rule orderly_same) (rule check_ratelimit_cases(3) [OF ck])
  show ?thesis
  proof (cases res)
    case (Some r)
    then show ?thesis using ck o1 by (simp add: whole_upload_def)
  next
    case None
    have "orderly w1 (snd (process_batch e cfg req usr opts w1))" by (rule process_batch_orderly)
    with o1 have "orderly w (snd (process_batch e cfg req usr opts w1))" by (rule orderly_trans)
    then show ?thesis using None ck by (simp add: whole_upload_def)
  qed
qed

lemma finish_partial_cases:
  "snd (finish_partial e cfg req usr opts chunks w) = w
   \<or> (\<exists>im shown w2. create_record e cfg req im w = (shown, w2)
        \<and> finish_partial e cfg req usr opts chunks w
            = (Res_json_files [server_url cfg req shown] None,
               (datasource_save (image_file im) chunks w2)\<lparr>tick := Suc (tick w)\<rparr>))"
proof (cases "headers req ''x-zipline-partial-filename''")
  case None
  then show ?thesis by (simp add: finish_partial_def)
next
  case (Some filename)
  show ?thesis
  proof (cases "extension filename \<in> set (uploader_disabled_extensions cfg)")
    case True
    then show ?thesis using Some by (simp add: finish_partial_def)
  next
    case False
    let ?c = "if truthy_num e (imageCompressionPercent opts)
              then (case headers req ''x-zipline-partial-mimetype'' of
                      None \<Rightarrow> Inl TypeError
                    | Some m \<Rightarrow> Inr (startsWith m ''image/''))
              else Inr False"
    show ?thesis
    proof (cases ?c)
      case (Inl x)
      then show ?thesis using Some False by (simp add: finish_partial_def Let_def)
    next
      case (Inr cu)
      let ?im = "image_data e req usr opts w
                   (file_stem e cfg (tick w) (format_sel opts) filename @ ''.''
                      @ (if cu then ''jpg'' else extension filename))
                   (headers req ''x-zipline-partial-mimetype'')"
      obtain shown w2 where cr: "create_record e cfg req ?im w = (shown, w2)"
        by (cases "create_record e cfg req ?im w")
      have "finish_partial e cfg req usr opts chunks w
            = (Res_json_files [server_url cfg req shown] None,
               (datasource_save (image_file ?im) chunks w2)\<lparr>tick := Suc (tick w)\<rparr>)"
        using Some False Inr cr by (simp add: finish_partial_def Let_def)
      with cr show ?thesis by blast
    qed
  qed
qed

lemma finish_partial_orderly: "orderly w (snd (finish_partial e cfg req usr opts chunks w))"
  using finish_partial_cases [of e cfg req usr opts chunks w]
proof (elim disjE exE conjE)
  assume "snd (finish_partial e cfg req usr opts chunks w) = w"
  then show ?thesis by (simp add: orderly_refl)
next
  fix im shown w2
  assume cr: "create_record e cfg req im w = (shown, w2)"
    and fp: "finish_partial e cfg req usr opts chunks w
            = (Res_json_files [server_url cfg req shown] None,
               (datasource_save (image_file im) chunks w2)\<lparr>tick := Suc (tick w)\<rparr>)"
  have "events (snd (finish_partial e cfg req usr opts chunks w))
          = events w @ [Ev_create im, Ev_save (image_file im) chunks]"
    unfolding fp using create_record_fields(3) [OF cr] by (simp add: datasource_save_def)
  then show ?thesis unfolding orderly_def by simp
qed

lemma partial_upload_orderly: "orderly w (snd (partial_upload e cfg req usr opts cr w))"
proof -
  obtain start stop tot where p: "parse_content_range cr = (start, stop, tot)"
    by (cases "parse_content_range cr")
  show ?thesis
  proof (cases "files req")
    case None
    then show ?thesis using p by (simp add: partial_upload_def orderly_refl)
  next
    case (Some fs)
    show ?thesis
    proof (cases fs)
      case Nil
      then show ?thesis using p Some by (simp add: partial_upload_def orderly_refl)
    next
      case (Cons f fs')
      show ?thesis
      proof (cases "writeFile e (chunk_name e (headers req ''x-zipline-partial-identifier'') start stop)
                      (buffer f) (tmpdir w)")
        case (Inl r)
        then show ?thesis using p Some Cons
          by (simp add: partial_upload_def Let_def orderly_refl)
      next
        case wr: (Inr dir1)
        show ?thesis
        proof (cases "headers req ''x-zipline-partial-lastchunk'' = Some ''true''")
          case False
          then show ?thesis using p Some Cons wr
            by (simp add: partial_upload_def Let_def orderly_same)
        next
          case True
          obtain res dir where r: "reassemble e (tick w) (headers req ''x-zipline-partial-identifier'') tot dir1 = (res, dir)"
            by (cases "reassemble e (tick w) (headers req ''x-zipline-partial-identifier'') tot dir1")
          have o1: "orderly w (w\<lparr>tmpdir := dir\<rparr>)" by (rule orderly_same) simp
          show ?thesis
          proof (cases res)
            case (Inl x)
            then show ?thesis using p Some Cons True wr r o1
              by (simp add: partial_upload_def Let_def)
          next
            case (Inr chunks)
            have "orderly (w\<lparr>tmpdir := dir\<rparr>)
                    (snd (finish_partial e cfg req usr opts chunks (w\<lparr>tmpdir := dir\<rparr>)))"
              by (rule finish_partial_orderly)
            with o1 have "orderly w (snd (finish_partial e cfg req usr opts chunks (w\<lparr>tmpdir := dir\<rparr>)))"
              by (rule orderly_trans)
            then show ?thesis using p Some Cons True wr r Inr
              by (simp add: partial_upload_def Let_def)
          qed
        qed
      qed
    qed
  qed
qed

lemma handler_orderly: "orderly w (snd (handler e cfg w req))"
proof -
  have "snd (handler e cfg w req) = w
      \<or> (\<exists>usr opts. handler e cfg w req = whole_upload e cfg req usr opts w)
      \<or> (\<exists>usr opts cr. handler e cfg w req = partial_upload e cfg req usr opts cr w)"
    by (simp add: handler_def split: option.splits sum.splits) blast
  then show ?thesis
  proof (elim disjE exE)
    assume "snd (handler e cfg w req) = w"
    then show ?thesis by (simp add: orderly_refl)
  next
    fix usr opts assume "handler e cfg w req = whole_upload e cfg req usr opts w"
    then show ?thesis by (simp add: whole_upload_orderly)
  next
    fix usr opts cr assume "handler e cfg w req = partial_upload e cfg req usr opts cr w"
    then show ?thesis by (simp add: partial_upload_orderly)
  qed
qed

text \<open>
  Claim C6.  Whatever the request, the calls the handler adds to the trace are in this
  order: every save to the blob store comes after the creation of the File Record that
  carries the saved name.  This covers each file of a whole upload and the reassembled
  file of a chunked one.
\<close>

theorem record_created_before_save:
  "\<exists>new. events (snd (handler e cfg w req)) = events w @ new \<and> created_before_saved [] new"
  using handler_orderly [of w e cfg req] by (simp add: orderly_def)

theorem record_created_before_save_witness:
  "saves (events (snd (handler ex_env ex_cfg ex_world (ex_whole Map.empty [ex_png])))) = 1
   \<and> (\<exists>new. events (snd (handler ex_env ex_cfg ex_world (ex_whole Map.empty [ex_png])))
               = events ex_world @ new
            \<and> created_before_saved [] new)"
proof
  show "saves (events (snd (handler ex_env ex_cfg ex_world (ex_whole Map.empty [ex_png])))) = 1"
    by code_simp
  show "\<exists>new. events (snd (handler ex_env ex_cfg ex_world (ex_whole Map.empty [ex_png])))
               = events ex_world @ new
            \<and> created_before_saved [] new"
    by (rule record_created_before_save)
qed

section \<open>Chunk names\<close>

lemma chunk_file_name:
  "fst (chunk_file ident (s, t, b))
     = ''zipline_partial_'' @ ident @ ''_'' @ show_nat s @ ''_'' @ show_nat t"
  by (simp add: chunk_file_def)

lemma chunk_file_eq: "chunk_file ident c = (fst (chunk_file ident c), snd (snd c))"
  by (cases c) (simp add: chunk_file_def)

lemma chunk_name_nat:
  "chunk_name e (Some ident) (Some (Num (int s))) (Some (Num (int t)))
     = fst (chunk_file ident (s, t, b))"
  by (simp add: chunk_name_def chunk_prefix_def tmpl_str_def tmpl_num_def show_int_def
        chunk_file_def)

lemma split_chunk_name:
  assumes "CHR ''_'' \<notin> set ident"
  shows "split_chr CHR ''_'' (fst (chunk_file ident (s, t, b)))
           = [''zipline'', ''partial'', ident, show_nat s, show_nat t]"
proof -
  have 1: "split_chr CHR ''_'' (show_nat s @ CHR ''_'' # show_nat t) = [show_nat s, show_nat t]"
    by (simp add: split_chr_append split_chr_no_sep show_nat_no_underscore)
  have 2: "split_chr CHR ''_'' (ident @ CHR ''_'' # show_nat s @ CHR ''_'' # show_nat t)
             = ident # [show_nat s, show_nat t]"
    using assms 1 by (simp add: split_chr_append)
  have 3: "split_chr CHR ''_'' (''partial'' @ CHR ''_'' # ident @ CHR ''_'' # show_nat s @ CHR ''_'' # show_nat t)
             = ''partial'' # ident # [show_nat s, show_nat t]"
    by (subst split_chr_append) (simp_all add: 2)
  have 4: "split_chr CHR ''_'' (''zipline'' @ CHR ''_'' # ''partial'' @ CHR ''_'' # ident @ CHR ''_'' # show_nat s @ CHR ''_'' # show_nat t)
             = ''zipline'' # ''partial'' # ident # [show_nat s, show_nat t]"
    by (subst split_chr_append) (simp_all only: 3, simp)
  show ?thesis unfolding chunk_file_name using 4 by simp
qed

lemma read_chunk_chunk_file:
  assumes "CHR ''_'' \<notin> set ident" and "s \<le> 9007199254740992" and "t \<le> 9007199254740992"
  shows "read_chunk (fst (chunk_file ident (s, t, b)))
           = (Num (int s), Num (int t), fst (chunk_file ident (s, t, b)))"
proof -
  have "nth_opt [''zipline'', ''partial'', ident, show_nat s, show_nat t] 3 = Some (show_nat s)"
    and "nth_opt [''zipline'', ''partial'', ident, show_nat s, show_nat t] 4 = Some (show_nat t)"
    by (simp_all add: eval_nat_numeral)
  then show ?thesis
    unfolding read_chunk_def split_chunk_name [OF assms(1)] Let_def
    by (simp add: Number_undef_def Number_js_show_nat [OF assms(2)] Number_js_show_nat [OF assms(3)])
qed

section \<open>Reassembly\<close>

lemma new_Uint8Array_length:
  assumes "new_Uint8Array e x = Inr z"
  shows "length z \<le> 9007199254740991"
  using assms
  by (auto simp: new_Uint8Array_def array_limit_def split: option.splits jsval.splits if_splits)

lemma typed_array_set_paste1:
  assumes "s + length b \<le> length acc"
  shows "typed_array_set e acc b (Num (int s)) = Inr (paste1 (s, t, b) acc)"
  using assms by (simp add: typed_array_set_def num_val_def trunc_int paste1_def)

lemma length_paste1:
  assumes "s + length b \<le> length acc"
  shows "length (paste1 (s, e, b) acc) = length acc"
  using assms by (simp add: paste1_def)

lemma nth_paste1:
  assumes "s + length b \<le> length acc" and "i < length acc"
  shows "paste1 (s, e, b) acc ! i = (if s \<le> i \<and> i < s + length b then b ! (i - s) else acc ! i)"
proof -
  have "(take s acc @ b @ drop (s + length b) acc) ! i
          = (if i < s then acc ! i
             else if i - s < length b then b ! (i - s)
             else drop (s + length b) acc ! (i - s - length b))"
    using assms by (simp add: nth_append min_def)
  moreover have "\<not> i < s \<Longrightarrow> \<not> i - s < length b
                  \<Longrightarrow> drop (s + length b) acc ! (i - s - length b) = acc ! i"
    using assms by simp
  ultimately show ?thesis unfolding paste1_def by auto
qed

lemma paste_Cons: "paste (c # cs) acc = paste cs (paste1 c acc)"
  by (simp add: paste_def)

lemma paste_Nil: "paste [] acc = acc"
  by (simp add: paste_def)

lemma length_paste:
  assumes "list_all (fits (length acc)) cs"
  shows "length (paste cs acc) = length acc"
  using assms
proof (induction cs arbitrary: acc)
  case Nil
  then show ?case by (simp add: paste_Nil)
next
  case (Cons c cs)
  obtain s e b where c: "c = (s, e, b)" by (cases c)
  have l: "length (paste1 c acc) = length acc"
    using Cons.prems c by (simp add: fits_def length_paste1)
  then have "list_all (fits (length (paste1 c acc))) cs" using Cons.prems by simp
  from Cons.IH [OF this] l show ?case by (simp add: paste_Cons)
qed

lemma paste_untouched:
  assumes "list_all (fits (length acc)) cs" and "i < length acc"
    and "list_all (\<lambda>c. \<not> touches c i) cs"
  shows "paste cs acc ! i = acc ! i"
  using assms
proof (induction cs arbitrary: acc)
  case Nil
  then show ?case by (simp add: paste_Nil)
next
  case (Cons c cs)
  obtain s e b where c: "c = (s, e, b)" by (cases c)
  have f: "s + length b \<le> length acc" using Cons.prems(1) c by (simp add: fits_def)
  have l: "length (paste1 c acc) = length acc" using f c by (simp add: length_paste1)
  have n: "paste1 c acc ! i = acc ! i"
    using Cons.prems(2,3) f c by (auto simp: nth_paste1 touches_def)
  have "paste cs (paste1 c acc) ! i = paste1 c acc ! i"
    by (rule Cons.IH) (use Cons.prems l in simp_all)
  then show ?case using n by (simp add: paste_Cons)
qed

lemma paste_agrees:
  assumes "list_all (fits (length acc)) cs" and "i < length acc"
    and "list_all (\<lambda>c. \<forall>j. touches c j \<longrightarrow> snd (snd c) ! (j - fst c) = src ! j) cs"
    and "acc ! i = src ! i \<or> list_ex (\<lambda>c. touches c i) cs"
  shows "paste cs acc ! i = src ! i"
  using assms
proof (induction cs arbitrary: acc)
  case Nil
  then show ?case by (simp add: paste_Nil)
next
  case (Cons c cs)
  obtain s e b where c: "c = (s, e, b)" by (cases c)
  have f: "s + length b \<le> length acc" using Cons.prems(1) c by (simp add: fits_def)
  have l: "length (paste1 c acc) = length acc" using f c by (simp add: length_paste1)
  have ag: "\<And>j. touches c j \<Longrightarrow> b ! (j - s) = src ! j" using Cons.prems(3) c by simp
  have "paste1 c acc ! i = src ! i \<or> list_ex (\<lambda>c. touches c i) cs"
  proof (cases "list_ex (\<lambda>c. touches c i) cs")
    case True
    then show ?thesis by simp
  next
    case False
    show ?thesis
    proof (cases "touches c i")
      case True
      then have "paste1 c acc ! i = b ! (i - s)"
        using Cons.prems(2) f c by (simp add: nth_paste1 touches_def)
      then show ?thesis using ag [OF True] by simp
    next
      case nt: False
      then have "acc ! i = src ! i" using Cons.prems(4) False by simp
      moreover have "paste1 c acc ! i = acc ! i"
        using Cons.prems(2) f c nt by (auto simp: nth_paste1 touches_def)
      ultimately show ?thesis by simp
    qed
  qed
  then have "paste cs (paste1 c acc) ! i = src ! i"
    by (intro Cons.IH) (use Cons.prems l in simp_all)
  then show ?case by (simp add: paste_Cons)
qed

lemma combine_chunks_paste:
  assumes "distinct (map nm cs)"
    and "list_all (\<lambda>c. map_of dir (nm c) = Some (snd (snd c))) cs"
    and "list_all (fits (length buf)) cs"
  shows "\<exists>dir'. combine_chunks e (map (\<lambda>c. (Num (int (fst c)), Num (int (fst (snd c))), nm c)) cs) buf dir
           = (Inr (paste cs buf), dir')"
  using assms
proof (induction cs arbitrary: buf dir)
  case Nil
  then show ?case by (simp add: paste_Nil)
next
  case (Cons c cs)
  obtain s t b where c: "c = (s, t, b)" by (cases c)
  have f: "s + length b \<le> length buf" using Cons.prems(3) c by (simp add: fits_def)
  have m: "map_of dir (nm c) = Some b" using Cons.prems(2) c by simp
  have l: "length (paste1 c buf) = length buf" using f c by (simp add: length_paste1)
  have d: "distinct (map nm cs)" and nin: "nm c \<notin> nm ` set cs"
    using Cons.prems(1) by simp_all
  have ne: "\<forall>c'\<in>set cs. nm c' \<noteq> nm c"
  proof
    fix c' assume "c' \<in> set cs"
    then have "nm c' \<in> nm ` set cs" by (rule imageI)
    then show "nm c' \<noteq> nm c" using nin by auto
  qed
  have m': "list_all (\<lambda>c'. map_of (unlink (nm c) dir) (nm c') = Some (snd (snd c'))) cs"
    using Cons.prems(2) ne by (simp add: list_all_iff unlink_def)
  have f': "list_all (fits (length (paste1 c buf))) cs" using Cons.prems(3) l by simp
  from Cons.IH [OF d m' f'] obtain dir' where
    "combine_chunks e (map (\<lambda>c. (Num (int (fst c)), Num (int (fst (snd c))), nm c)) cs)
       (paste1 c buf) (unlink (nm c) dir) = (Inr (paste cs (paste1 c buf)), dir')" by blast
  then show ?case
    using m c typed_array_set_paste1 [OF f, of e t] by (simp add: paste_Cons)
qed

lemma list_partials_stored:
  "list_partials e t (Some ident) dir = map fst (stored_chunks e t ident dir)"
  by (simp add: list_partials_def stored_chunks_def filter_map comp_def)

lemma reassemble_paste:
  assumes "CHR ''_'' \<notin> set ident" and "distinct (map fst dir)"
    and "stored_chunks e t ident dir = map (chunk_file ident) cs"
    and "list_all (fits tot) cs" and "list_all (\<lambda>c. fst (snd c) \<le> tot) cs"
    and "new_Uint8Array e size_total = Inr (replicate tot 0)"
  shows "\<exists>dir'. reassemble e t (Some ident) size_total dir
                  = (Inr (paste cs (replicate tot 0)), dir')"
proof -
  let ?nm = "\<lambda>c. fst (chunk_file ident c)"
  have tot: "tot \<le> 9007199254740991"
    using new_Uint8Array_length [OF assms(6)] by simp
  have names: "list_partials e t (Some ident) dir = map ?nm cs"
    by (simp add: list_partials_stored assms(3))
  have rd: "map read_chunk (map ?nm cs)
              = map (\<lambda>c. (Num (int (fst c)), Num (int (fst (snd c))), ?nm c)) cs"
    unfolding map_map
  proof (rule map_cong [OF refl])
    fix c assume c: "c \<in> set cs"
    obtain s u b where cu: "c = (s, u, b)" by (cases c)
    have "fits tot c" "fst (snd c) \<le> tot" using c assms(4,5) by (simp_all add: list_all_iff)
    then have "s \<le> 9007199254740992" "u \<le> 9007199254740992"
      using tot cu by (simp_all add: fits_def)
    from read_chunk_chunk_file [OF assms(1) this, of b]
    show "(read_chunk \<circ> ?nm) c = (Num (int (fst c)), Num (int (fst (snd c))), ?nm c)"
      using cu by simp
  qed
  have "distinct (map fst (readdir e t dir))" using assms(2) by (simp add: distinct_readdir)
  then have "distinct (map fst (stored_chunks e t ident dir))"
    unfolding stored_chunks_def by (rule distinct_map_filter)
  then have d: "distinct (map ?nm cs)" by (simp add: assms(3) comp_def)
  have m: "list_all (\<lambda>c. map_of dir (?nm c) = Some (snd (snd c))) cs"
    unfolding list_all_iff
  proof
    fix c assume "c \<in> set cs"
    then have "chunk_file ident c \<in> set (stored_chunks e t ident dir)" by (simp add: assms(3))
    then have "chunk_file ident c \<in> set dir" by (simp add: stored_chunks_def set_readdir)
    then have "(?nm c, snd (snd c)) \<in> set dir" using chunk_file_eq [of ident c] by simp
    then show "map_of dir (?nm c) = Some (snd (snd c))"
      by (rule map_of_is_SomeI [OF assms(2)])
  qed
  have f: "list_all (fits (length (replicate tot (0::byte)))) cs" using assms(4) by simp
  from combine_chunks_paste [of ?nm cs dir, OF d m f] obtain dir' where
    "combine_chunks e (map (\<lambda>c. (Num (int (fst c)), Num (int (fst (snd c))), ?nm c)) cs)
        (replicate tot 0) dir = (Inr (paste cs (replicate tot 0)), dir')" by blast
  then show ?thesis
    unfolding reassemble_def names rd by (simp add: assms(6))
qed

lemma paste_zero_fill:
  assumes "list_all (fits tot) cs"
  shows "length (paste cs (replicate tot 0)) = tot"
    and "\<And>i. i < tot \<Longrightarrow> list_all (\<lambda>c. \<not> touches c i) cs
           \<Longrightarrow> paste cs (replicate tot (0::byte)) ! i = 0"
proof -
  have f: "list_all (fits (length (replicate tot (0::byte)))) cs" using assms by simp
  show "length (paste cs (replicate tot 0)) = tot"
    using length_paste [OF f] by simp
  fix i assume i: "i < tot" and u: "list_all (\<lambda>c. \<not> touches c i) cs"
  have "paste cs (replicate tot (0::byte)) ! i = replicate tot (0::byte) ! i"
    by (rule paste_untouched [OF f _ u]) (simp add: i)
  then show "paste cs (replicate tot (0::byte)) ! i = 0" using i by simp
qed

lemma slice_of_facts:
  assumes "slice_of src c"
  shows "fits (length src) c" and "touches c i \<longleftrightarrow> covers c i"
    and "touches c i \<Longrightarrow> snd (snd c) ! (i - fst c) = src ! i"
    and "fst (snd c) \<le> length src"
proof -
  obtain s e b where c: "c = (s, e, b)" by (cases c)
  have h: "s \<le> e" "e \<le> length src" "b = take (e - s) (drop s src)"
    using assms c by (simp_all add: slice_of_def)
  have lb: "length b = e - s" using h by simp
  show "fits (length src) c" using c h lb by (simp add: fits_def)
  show "touches c i \<longleftrightarrow> covers c i" using c h lb by (auto simp: touches_def covers_def)
  show "fst (snd c) \<le> length src" using c h by simp
  show "snd (snd c) ! (i - fst c) = src ! i" if "touches c i"
  proof -
    have r: "s \<le> i" "i < e" using that c lb h(1) by (simp_all add: touches_def)
    have "take (e - s) (drop s src) ! (i - s) = drop s src ! (i - s)"
      using r by simp
    also have "\<dots> = src ! (s + (i - s))" using h(2) r by simp
    finally show ?thesis using c h(3) r by simp
  qed
qed

lemma paste_round_trip:
  assumes "list_all (slice_of src) cs"
    and "\<forall>i<length src. list_ex (\<lambda>c. covers c i) cs"
  shows "paste cs (replicate (length src) 0) = src"
proof (rule nth_equalityI)
  have f0: "list_all (fits (length src)) cs"
    using assms(1) slice_of_facts(1) by (auto simp: list_all_iff)
  then have f: "list_all (fits (length (replicate (length src) (0::byte)))) cs" by simp
  show len: "length (paste cs (replicate (length src) 0)) = length src"
    using length_paste [OF f] by simp
  fix i assume "i < length (paste cs (replicate (length src) 0))"
  then have i: "i < length src" using len by simp
  have ag: "list_all (\<lambda>c. \<forall>j. touches c j \<longrightarrow> snd (snd c) ! (j - fst c) = src ! j) cs"
    using assms(1) slice_of_facts(3) by (auto simp: list_all_iff)
  have "list_ex (\<lambda>c. covers c i) cs" using assms(2) i by blast
  then obtain c where c: "c \<in> set cs" "covers c i" by (auto simp: list_ex_iff)
  then have "slice_of src c" using assms(1) by (simp add: list_all_iff)
  then have "touches c i" using c(2) slice_of_facts(2) by blast
  then have tc: "list_ex (\<lambda>c. touches c i) cs" using c(1) by (auto simp: list_ex_iff)
  show "paste cs (replicate (length src) 0) ! i = src ! i"
    by (rule paste_agrees [OF f _ ag]) (use i tc in simp_all)
qed

lemma reassemble_round_trip:
  assumes "CHR ''_'' \<notin> set ident" and "distinct (map fst dir)"
    and "stored_chunks e t ident dir = map (chunk_file ident) cs"
    and "list_all (slice_of src) cs"
    and "\<forall>i<length src. list_ex (\<lambda>c. covers c i) cs"
    and "new_Uint8Array e size_total = Inr (replicate (length src) 0)"
  shows "\<exists>dir'. reassemble e t (Some ident) size_total dir = (Inr src, dir')"
proof -
  have f: "list_all (fits (length src)) cs"
    using assms(4) slice_of_facts(1) by (auto simp: list_all_iff)
  have g: "list_all (\<lambda>c. fst (snd c) \<le> length src) cs"
    using assms(4) slice_of_facts(4) by (auto simp: list_all_iff)
  from reassemble_paste [OF assms(1,2,3) f g assms(6)] show ?thesis
    by (simp add: paste_round_trip [OF assms(4,5)])
qed

section \<open>The last chunk\<close>

lemma finish_partial_ok:
  assumes "headers req ''x-zipline-partial-filename'' = Some filename"
    and "extension filename \<notin> set (uploader_disabled_extensions cfg)"
    and "truthy_num e (imageCompressionPercent opts)
           \<longrightarrow> headers req ''x-zipline-partial-mimetype'' \<noteq> None"
  shows "\<exists>im shown w2. create_record e cfg req im w = (shown, w2)
        \<and> finish_partial e cfg req usr opts chunks w
            = (Res_json_files [server_url cfg req shown] None,
               (datasource_save (image_file im) chunks w2)\<lparr>tick := Suc (tick w)\<rparr>)"
proof -
  let ?c = "if truthy_num e (imageCompressionPercent opts)
            then (case headers req ''x-zipline-partial-mimetype'' of
                    None \<Rightarrow> Inl TypeError
                  | Some m \<Rightarrow> Inr (startsWith m ''image/''))
            else Inr False"
  have "\<exists>cu. ?c = Inr cu"
  proof (cases "truthy_num e (imageCompressionPercent opts)")
    case True
    then obtain m where "headers req ''x-zipline-partial-mimetype'' = Some m"
      using assms(3) by auto
    then show ?thesis using True by simp
  next
    case False
    then show ?thesis by auto
  qed
  then obtain cu where cu: "?c = Inr cu" by blast
  let ?im = "image_data e req usr opts w
               (file_stem e cfg (tick w) (format_sel opts) filename @ ''.''
                  @ (if cu then ''jpg'' else extension filename))
               (headers req ''x-zipline-partial-mimetype'')"
  obtain shown w2 where cr: "create_record e cfg req ?im w = (shown, w2)"
    by (cases "create_record e cfg req ?im w")
  have "finish_partial e cfg req usr opts chunks w
        = (Res_json_files [server_url cfg req shown] None,
           (datasource_save (image_file ?im) chunks w2)\<lparr>tick := Suc (tick w)\<rparr>)"
    using assms(1,2) cu cr by (simp add: finish_partial_def Let_def)
  with cr show ?thesis by blast
qed

lemma partial_upload_last:
  assumes "parse_content_range cr = (start, stop, tot)"
    and "headers req ''x-zipline-partial-lastchunk'' = Some ''true''"
    and "files req = Some (f # fs)"
    and "writeFile e (chunk_name e (headers req ''x-zipline-partial-identifier'') start stop)
           (buffer f) (tmpdir w) = Inr dir1"
    and "reassemble e (tick w) (headers req ''x-zipline-partial-identifier'') tot dir1
           = (Inr buf, dir')"
  shows "partial_upload e cfg req usr opts cr w
           = finish_partial e cfg req usr opts buf (w\<lparr>tmpdir := dir'\<rparr>)"
  using assms by (simp add: partial_upload_def Let_def)

lemma well_sized_facts:
  assumes "well_sized c" and "fst (snd c) \<le> tot"
  shows "fits tot c" and "touches c i \<longleftrightarrow> covers c i"
proof -
  obtain s e b where c: "c = (s, e, b)" by (cases c)
  have h: "s \<le> e" "length b = e - s" "e \<le> tot" using assms c by (simp_all add: well_sized_def)
  show "fits tot c" using c h by (simp add: fits_def)
  show "touches c i \<longleftrightarrow> covers c i" using c h by (auto simp: touches_def covers_def)
qed

lemma last_chunk_completes:
  assumes "reaches_upload e w req usr opts"
    and "headers req ''content-range'' = Some cr" and "cr \<noteq> []"
    and "parse_content_range cr = (start, stop, size_total)"
    and "new_Uint8Array e size_total = Inr (replicate tot 0)"
    and "headers req ''x-zipline-partial-lastchunk'' = Some ''true''"
    and "files req = Some (f # fs)"
    and "headers req ''x-zipline-partial-identifier'' = Some ident"
    and "CHR ''_'' \<notin> set ident"
    and "distinct (map fst (tmpdir w))"
    and "writeFile e (chunk_name e (Some ident) start stop) (buffer f) (tmpdir w) = Inr dir1"
    and "stored_chunks e (tick w) ident dir1 = map (chunk_file ident) cs"
    and "list_all (fits tot) cs" and "list_all (\<lambda>c. fst (snd c) \<le> tot) cs"
    and "headers req ''x-zipline-partial-filename'' = Some filename"
    and "extension filename \<notin> set (uploader_disabled_extensions cfg)"
    and "truthy_num e (imageCompressionPercent opts)
           \<longrightarrow> headers req ''x-zipline-partial-mimetype'' \<noteq> None"
  shows "\<exists>im url.
           fst (handler e cfg w req) = Res_json_files [url] None
         \<and> images (snd (handler e cfg w req)) = images w @ [im]
         \<and> datasource (snd (handler e cfg w req))
             = AList.update (image_file im) (paste cs (replicate tot 0)) (datasource w)"
proof -
  let ?buf = "paste cs (replicate tot 0)"
  obtain x where "dir1 = AList.update x (buffer f) (tmpdir w)"
    using writeFile_Inr [OF assms(11)] by blast
  then have d: "distinct (map fst dir1)"
    using distinct_update [OF assms(10)] by simp
  from reassemble_paste [OF assms(9) d assms(12,13,14,5)] obtain dir' where
    r: "reassemble e (tick w) (Some ident) size_total dir1 = (Inr ?buf, dir')" by blast
  have wr: "writeFile e (chunk_name e (headers req ''x-zipline-partial-identifier'') start stop)
              (buffer f) (tmpdir w) = Inr dir1"
    unfolding assms(8) by (rule assms(11))
  have r': "reassemble e (tick w) (headers req ''x-zipline-partial-identifier'') size_total dir1
              = (Inr ?buf, dir')"
    unfolding assms(8) by (rule r)
  let ?w1 = "w\<lparr>tmpdir := dir'\<rparr>"
  have h: "handler e cfg w req = finish_partial e cfg req usr opts ?buf ?w1"
    unfolding handler_partial [OF assms(1,2,3)]
    by (rule partial_upload_last [OF assms(4,6,7) wr r'])
  from finish_partial_ok [OF assms(15,16,17), where usr = usr and chunks = ?buf and w = ?w1]
  obtain im shown w2 where
    cr: "create_record e cfg req im ?w1 = (shown, w2)"
    and fp: "finish_partial e cfg req usr opts ?buf ?w1
            = (Res_json_files [server_url cfg req shown] None,
               (datasource_save (image_file im) ?buf w2)\<lparr>tick := Suc (tick ?w1)\<rparr>)"
    by blast
  have 1: "fst (handler e cfg w req) = Res_json_files [server_url cfg req shown] None"
    unfolding h fp by simp
  have 2: "images (snd (handler e cfg w req)) = images w @ [im]"
    unfolding h fp using create_record_fields(1) [OF cr] by (simp add: datasource_save_def)
  have 3: "datasource (snd (handler e cfg w req)) = AList.update (image_file im) ?buf (datasource w)"
    unfolding h fp using create_record_fields(2) [OF cr] by (simp add: datasource_save_def)
  from 1 2 3 show ?thesis by blast
qed

text \<open>
  The round trip of a chunked upload whose identifier has no underscore: when the
  enumerated chunks are ranges of the source bytes and cover them, whatever the order
  in which the directory lists them and also when they overlap, the bytes written to the
  blob store are the source bytes.
\<close>

lemma chunked_upload_round_trip:
  assumes "reaches_upload e w req usr opts"
    and "headers req ''content-range'' = Some cr" and "cr \<noteq> []"
    and "parse_content_range cr = (start, stop, size_total)"
    and "new_Uint8Array e size_total = Inr (replicate (length src) 0)"
    and "headers req ''x-zipline-partial-lastchunk'' = Some ''true''"
    and "files req = Some (f # fs)"
    and "headers req ''x-zipline-partial-identifier'' = Some ident"
    and "CHR ''_'' \<notin> set ident"
    and "distinct (map fst (tmpdir w))"
    and "writeFile e (chunk_name e (Some ident) start stop) (buffer f) (tmpdir w) = Inr dir1"
    and "stored_chunks e (tick w) ident dir1 = map (chunk_file ident) cs"
    and "list_all (slice_of src) cs"
    and "\<forall>i<length src. list_ex (\<lambda>c. covers c i) cs"
    and "headers req ''x-zipline-partial-filename'' = Some filename"
    and "extension filename \<notin> set (uploader_disabled_extensions cfg)"
    and "truthy_num e (imageCompressionPercent opts)
           \<longrightarrow> headers req ''x-zipline-partial-mimetype'' \<noteq> None"
  shows "\<exists>im url.
           fst (handler e cfg w req) = Res_json_files [url] None
         \<and> images (snd (handler e cfg w req)) = images w @ [im]
         \<and> datasource (snd (handler e cfg w req))
             = AList.update (image_file im) src (datasource w)"
proof -
  have fit: "list_all (fits (length src)) cs"
    using assms(13) slice_of_facts(1) by (auto simp: list_all_iff)
  have g: "list_all (\<lambda>c. fst (snd c) \<le> length src) cs"
    using assms(13) slice_of_facts(4) by (auto simp: list_all_iff)
  from last_chunk_completes [OF assms(1,2,3,4,5,6,7,8,9,10,11,12) fit g assms(15,16,17)]
  show ?thesis by (simp add: paste_round_trip [OF assms(13,14)])
qed

text \<open>
  Claim C5, as the handler implements it.  The request flags the last chunk of the
  upload \<open>ident\<close>, whose name has no underscore, and its own chunk has been written
  to the temporary directory, which is then \<open>dir1\<close>.  The buffer allocated for the
  declared total has the length \<open>tot\<close>: the total is a length the runtime can
  allocate.  The temporary files that the reassembly enumerates, those whose name begins
  with \<open>zipline_partial_\<close> and the identifier, are the files of the chunks \<open>cs\<close>
  and no others, in the order in which the directory lists them; each chunk has as many
  bytes as its range declares and none reaches beyond the declared total.  The file name
  header is present and its extension is not disabled, and the mimetype header is
  present when a compression percent is in force.  Then no error is raised: the answer
  carries the URL, one File Record is created, and the buffer written to the blob store
  has the declared total length and is zero at every position that no chunk covers.
\<close>

theorem gaps_are_zero_filled:
  assumes "reaches_upload e w req usr opts"
    and "headers req ''content-range'' = Some cr" and "cr \<noteq> []"
    and "parse_content_range cr = (start, stop, size_total)"
    and "new_Uint8Array e size_total = Inr (replicate tot 0)"
    and "headers req ''x-zipline-partial-lastchunk'' = Some ''true''"
    and "files req = Some (f # fs)"
    and "headers req ''x-zipline-partial-identifier'' = Some ident"
    and "CHR ''_'' \<notin> set ident"
    and "distinct (map fst (tmpdir w))"
    and "writeFile e (chunk_name e (Some ident) start stop) (buffer f) (tmpdir w) = Inr dir1"
    and "stored_chunks e (tick w) ident dir1 = map (chunk_file ident) cs"
    and "list_all well_sized cs" and "list_all (\<lambda>c. fst (snd c) \<le> tot) cs"
    and "headers req ''x-zipline-partial-filename'' = Some filename"
    and "extension filename \<notin> set (uploader_disabled_extensions cfg)"
    and "truthy_num e (imageCompressionPercent opts)
           \<longrightarrow> headers req ''x-zipline-partial-mimetype'' \<noteq> None"
  shows "\<exists>im buf url.
           fst (handler e cfg w req) = Res_json_files [url] None
         \<and> images (snd (handler e cfg w req)) = images w @ [im]
         \<and> datasource (snd (handler e cfg w req))
             = AList.update (image_file im) buf (datasource w)
         \<and> length buf = tot
         \<and> (\<forall>i<tot. list_all (\<lambda>c. \<not> covers c i) cs \<longrightarrow> buf ! i = 0)"
proof -
  let ?buf = "paste cs (replicate tot 0)"
  have fit: "list_all (fits tot) cs"
    using assms(13,14) well_sized_facts(1) by (auto simp: list_all_iff)
  from last_chunk_completes [OF assms(1,2,3,4,5,6,7,8,9,10,11,12) fit assms(14,15,16,17)]
  obtain im url where
    1: "fst (handler e cfg w req) = Res_json_files [url] None"
       "images (snd (handler e cfg w req)) = images w @ [im]"
       "datasource (snd (handler e cfg w req)) = AList.update (image_file im) ?buf (datasource w)"
    by blast
  have 4: "length ?buf = tot" by (rule paste_zero_fill(1) [OF fit])
  have 5: "\<forall>i<tot. list_all (\<lambda>c. \<not> covers c i) cs \<longrightarrow> ?buf ! i = 0"
  proof (intro allI impI)
    fix i assume i: "i < tot" and u: "list_all (\<lambda>c. \<not> covers c i) cs"
    have "list_all (\<lambda>c. \<not> touches c i) cs"
      unfolding list_all_iff
    proof
      fix c assume c: "c \<in> set cs"
      then have "well_sized c" "fst (snd c) \<le> tot" using assms(13,14) by (simp_all add: list_all_iff)
      then have "touches c i \<longleftrightarrow> covers c i" by (rule well_sized_facts(2))
      moreover have "\<not> covers c i" using u c by (simp add: list_all_iff)
      ultimately show "\<not> touches c i" by simp
    qed
    then show "?buf ! i = 0" by (rule paste_zero_fill(2) [OF fit i])
  qed
  from 1 4 5 show ?thesis by blast
qed

theorem gaps_are_zero_filled_witness:
  "reaches_upload ex_env (ex_world_dir [(''zipline_partial_ab_0_2'', [1, 2])])
      (ex_chunk ''ab'' ''a.bin'' ''bytes 4-6/6'' ''true'' [5, 6]) ex_user ex_opts
   \<and> parse_content_range ''bytes 4-6/6'' = (Some (Num 4), Some (Num 6), Some (Num 6))
   \<and> new_Uint8Array ex_env (Some (Num 6)) = Inr (replicate 6 0)
   \<and> writeFile ex_env (chunk_name ex_env (Some ''ab'') (Some (Num 4)) (Some (Num 6))) [5, 6]
        [(''zipline_partial_ab_0_2'', [1, 2])]
       = Inr [(''zipline_partial_ab_0_2'', [1, 2]), (''zipline_partial_ab_4_6'', [5, 6])]
   \<and> stored_chunks ex_env 0 ''ab''
        [(''zipline_partial_ab_0_2'', [1, 2]), (''zipline_partial_ab_4_6'', [5, 6])]
       = map (chunk_file ''ab'') [(0, 2, [1, 2]), (4, 6, [5, 6])]
   \<and> list_all (\<lambda>c. \<not> covers c 2) [(0, 2, [1, 2]), (4, 6, [5, 6])]
   \<and> list_all (\<lambda>c. \<not> covers c 3) [(0, 2, [1, 2]), (4, 6, [5, 6])]
   \<and> fst (handler ex_env ex_cfg (ex_world_dir [(''zipline_partial_ab_0_2'', [1, 2])])
            (ex_chunk ''ab'' ''a.bin'' ''bytes 4-6/6'' ''true'' [5, 6]))
       = Res_json_files [''http://example.org/u/00.bin''] None
   \<and> datasource (snd (handler ex_env ex_cfg (ex_world_dir [(''zipline_partial_ab_0_2'', [1, 2])])
            (ex_chunk ''ab'' ''a.bin'' ''bytes 4-6/6'' ''true'' [5, 6])))
       = [(''00.bin'', [1, 2, 0, 0, 5, 6])]
   \<and> (\<exists>im buf url.
         fst (handler ex_env ex_cfg (ex_world_dir [(''zipline_partial_ab_0_2'', [1, 2])])
                (ex_chunk ''ab'' ''a.bin'' ''bytes 4-6/6'' ''true'' [5, 6]))
           = Res_json_files [url] None
       \<and> images (snd (handler ex_env ex_cfg (ex_world_dir [(''zipline_partial_ab_0_2'', [1, 2])])
                (ex_chunk ''ab'' ''a.bin'' ''bytes 4-6/6'' ''true'' [5, 6])))
           = images (ex_world_dir [(''zipline_partial_ab_0_2'', [1, 2])]) @ [im]
       \<and> datasource (snd (handler ex_env ex_cfg (ex_world_dir [(''zipline_partial_ab_0_2'', [1, 2])])
                (ex_chunk ''ab'' ''a.bin'' ''bytes 4-6/6'' ''true'' [5, 6])))
           = AList.update (image_file im) buf (datasource (ex_world_dir [(''zipline_partial_ab_0_2'', [1, 2])]))
       \<and> length buf = 6
       \<and> (\<forall>i<6. list_all (\<lambda>c. \<not> covers c i) [(0, 2, [1, 2]), (4, 6, [5, 6])] \<longrightarrow> buf ! i = 0))"
proof -
  let ?w = "ex_world_dir [(''zipline_partial_ab_0_2'', [1, 2])]"
  let ?req = "ex_chunk ''ab'' ''a.bin'' ''bytes 4-6/6'' ''true'' [5, 6]"
  let ?f = "ex_file ''blob'' ''application/octet-stream'' [5, 6]"
  let ?cs = "[(0, 2, [1, 2]), (4, 6, [5, 6])] :: chunk list"
  let ?dir1 = "[(''zipline_partial_ab_0_2'', [1, 2]), (''zipline_partial_ab_4_6'', [5, 6])] :: (string \<times> bytes) list"
  have a1: "reaches_upload ex_env ?w ?req ex_user ex_opts" by code_simp
  have a2: "headers ?req ''content-range'' = Some ''bytes 4-6/6''" by code_simp
  have a3: "''bytes 4-6/6'' \<noteq> []" by simp
  have a4: "parse_content_range ''bytes 4-6/6'' = (Some (Num 4), Some (Num 6), Some (Num 6))"
    by code_simp
  have a5: "new_Uint8Array ex_env (Some (Num 6)) = Inr (replicate 6 0)" by code_simp
  have a6: "headers ?req ''x-zipline-partial-lastchunk'' = Some ''true''" by code_simp
  have a7: "files ?req = Some (?f # [])" by code_simp
  have a8: "headers ?req ''x-zipline-partial-identifier'' = Some ''ab''" by code_simp
  have a9: "CHR ''_'' \<notin> set ''ab''" by simp
  have a10: "distinct (map fst (tmpdir ?w))" by code_simp
  have w0: "writeFile ex_env (chunk_name ex_env (Some ''ab'') (Some (Num 4)) (Some (Num 6))) [5, 6]
        [(''zipline_partial_ab_0_2'', [1, 2])] = Inr ?dir1" by code_simp
  have t: "tmpdir ?w = [(''zipline_partial_ab_0_2'', [1, 2])]" by code_simp
  have k: "tick ?w = 0" by code_simp
  have b: "buffer ?f = [5, 6]" by code_simp
  have a11: "writeFile ex_env (chunk_name ex_env (Some ''ab'') (Some (Num 4)) (Some (Num 6)))
               (buffer ?f) (tmpdir ?w) = Inr ?dir1" unfolding t b by (rule w0)
  have s0: "stored_chunks ex_env 0 ''ab'' ?dir1 = map (chunk_file ''ab'') ?cs" by code_simp
  have a12: "stored_chunks ex_env (tick ?w) ''ab'' ?dir1 = map (chunk_file ''ab'') ?cs"
    unfolding k by (rule s0)
  have a13: "list_all well_sized ?cs" by code_simp
  have a14: "list_all (\<lambda>c. fst (snd c) \<le> 6) ?cs" by simp
  have a15: "headers ?req ''x-zipline-partial-filename'' = Some ''a.bin''" by code_simp
  have a16: "extension ''a.bin'' \<notin> set (uploader_disabled_extensions ex_cfg)" by code_simp
  have a17: "truthy_num ex_env (imageCompressionPercent ex_opts)
           \<longrightarrow> headers ?req ''x-zipline-partial-mimetype'' \<noteq> None" by code_simp
  have u2: "list_all (\<lambda>c. \<not> covers c 2) ?cs" by code_simp
  have u3: "list_all (\<lambda>c. \<not> covers c 3) ?cs" by code_simp
  have r: "fst (handler ex_env ex_cfg ?w ?req) = Res_json_files [''http://example.org/u/00.bin''] None"
    by code_simp
  have d: "datasource (snd (handler ex_env ex_cfg ?w ?req)) = [(''00.bin'', [1, 2, 0, 0, 5, 6])]"
    by code_simp
  note g = gaps_are_zero_filled [OF a1 a2 a3 a4 a5 a6 a7 a8 a9 a10 a11 a12 a13 a14 a15 a16 a17]
  from a1 a4 a5 w0 s0 u2 u3 r d g show ?thesis by (intro conjI)
qed

text \<open>
  Claim C5 as stated lets every reassembly with a gap complete, without an error and
  with zero bytes in the gap.  Each of the following reassemblies has a gap and does
  otherwise.
  \<^item> A stored chunk reaches beyond the declared total.  With the total 4, the last chunk
    0 to 1 and a stored chunk 2 to 6 of four bytes, position 1 is covered by no chunk;
    the copy of the stored chunk at offset 2 does not fit the buffer, \<open>set\<close> throws a
    \<open>RangeError\<close>, no record is created and nothing is saved.
  \<^item> A stored chunk carries more bytes than its range declares.  With the total 6, the
    last chunk 5 to 6 and a stored chunk named 0 to 2 that holds the four bytes 1, 2, 3,
    4, the positions 2, 3 and 4 are covered by no declared range; the positions 2 and 3
    of the buffer hold the bytes 3 and 4.
  \<^item> The declared total cannot be allocated: for the total \<open>2 ^ 53\<close> the allocation
    of the buffer throws a \<open>RangeError\<close>.
  \<^item> A temporary file of another upload has a name that begins with the same prefix.
    The reassembly of the upload \<open>a\<close>, whose chunks 0 to 2 and 4 to 6 leave the
    positions 2 and 3 uncovered, also enumerates the chunk 2 to 4 of the upload \<open>ab\<close>:
    its bytes 9, 9 fill the gap.
  \<^item> The reassembled upload still passes the extension check: for a file named
    \<open>setup.exe\<close> the answer is the error of the disabled extension, no record is
    created and nothing is saved; the chunks are gone from the temporary directory.
  \<^item> Without the file name header, and without the mimetype header when a compression
    percent is in force, a \<open>TypeError\<close> leaves the handler after the reassembly.
\<close>

theorem reassembly_with_gap_fails_or_is_filled:
  "list_all (\<lambda>c. \<not> covers c 1) [(2, 6, [3, 4, 5, 6]), (0, 1, [1])]
   \<and> fst (handler ex_env ex_cfg (ex_world_dir [chunk_file ''ab'' (2, 6, [3, 4, 5, 6])])
        (ex_chunk ''ab'' ''a.bin'' ''bytes 0-1/4'' ''true'' [1]))
       = Thrown RangeError
   \<and> images (snd (handler ex_env ex_cfg (ex_world_dir [chunk_file ''ab'' (2, 6, [3, 4, 5, 6])])
        (ex_chunk ''ab'' ''a.bin'' ''bytes 0-1/4'' ''true'' [1]))) = []
   \<and> datasource (snd (handler ex_env ex_cfg (ex_world_dir [chunk_file ''ab'' (2, 6, [3, 4, 5, 6])])
        (ex_chunk ''ab'' ''a.bin'' ''bytes 0-1/4'' ''true'' [1]))) = []
   \<and> list_all (\<lambda>c. \<not> covers c 2) [(0, 2, [1, 2, 3, 4]), (5, 6, [6])]
   \<and> datasource (snd (handler ex_env ex_cfg (ex_world_dir [chunk_file ''ab'' (0, 2, [1, 2, 3, 4])])
        (ex_chunk ''ab'' ''a.bin'' ''bytes 5-6/6'' ''true'' [6])))
       = [(''00.bin'', [1, 2, 3, 4, 0, 6])]
   \<and> fst (handler ex_env ex_cfg (ex_world_dir [chunk_file ''ab'' (0, 2, [1, 2])])
        (ex_chunk ''ab'' ''a.bin'' ''bytes 4-6/9007199254740992'' ''true'' [5, 6]))
       = Thrown RangeError
   \<and> images (snd (handler ex_env ex_cfg (ex_world_dir [chunk_file ''ab'' (0, 2, [1, 2])])
        (ex_chunk ''ab'' ''a.bin'' ''bytes 4-6/9007199254740992'' ''true'' [5, 6]))) = []
   \<and> list_all (\<lambda>c. \<not> covers c 2) [(0, 2, [1, 2]), (4, 6, [5, 6])]
   \<and> datasource (snd (handler ex_env ex_cfg
        (ex_world_dir [chunk_file ''a'' (0, 2, [1, 2]), chunk_file ''ab'' (2, 4, [9, 9])])
        (ex_chunk ''a'' ''a.bin'' ''bytes 4-6/6'' ''true'' [5, 6])))
       = [(''00.bin'', [1, 2, 9, 9, 5, 6])]
   \<and> tmpdir (snd (handler ex_env ex_cfg
        (ex_world_dir [chunk_file ''a'' (0, 2, [1, 2]), chunk_file ''ab'' (2, 4, [9, 9])])
        (ex_chunk ''a'' ''a.bin'' ''bytes 4-6/6'' ''true'' [5, 6])))
       = []
   \<and> handler ex_env ex_cfg (ex_world_dir [chunk_file ''ab'' (0, 2, [1, 2])])
        (ex_chunk ''ab'' ''setup.exe'' ''bytes 4-6/6'' ''true'' [5, 6])
       = (Res_error ''disabled extension recieved: exe'', ex_world)
   \<and> handler ex_env ex_cfg (ex_world_dir [chunk_file ''ab'' (0, 2, [1, 2])])
        (without_header ''x-zipline-partial-filename''
           (ex_chunk ''ab'' ''a.bin'' ''bytes 4-6/6'' ''true'' [5, 6]))
       = (Thrown TypeError, ex_world)
   \<and> handler ex_env ex_cfg (ex_world_dir [chunk_file ''ab'' (0, 2, [1, 2])])
        (with_header ''image-compression-percent'' ''80''
           (without_header ''x-zipline-partial-mimetype''
              (ex_chunk ''ab'' ''a.bin'' ''bytes 4-6/6'' ''true'' [5, 6])))
       = (Thrown TypeError, ex_world)
   \<and> images ex_world = [] \<and> datasource ex_world = []"
  by code_simp

text \<open>
  Claim C1 at a concrete upload.  The source bytes 1, 2, 3, 4 are sent as the chunks 0 to
  2 and 2 to 4 of the upload \<open>a_b\<close>, which cover the 4 bytes exactly.  The names of
  the temporary files are split at every underscore, so the start of each chunk is read
  from the piece \<open>b\<close> of the identifier: it is \<open>NaN\<close>, both chunks are copied at
  offset 0, and the bytes written to the blob store are 3, 4, 0, 0.
\<close>

theorem underscore_identifier_breaks_reassembly:
  "list_all (slice_of [1, 2, 3, 4]) [(0, 2, [1, 2]), (2, 4, [3, 4])]
   \<and> list_all (\<lambda>i. list_ex (\<lambda>c. covers c i) [(0, 2, [1, 2]), (2, 4, [3, 4])]) [0, 1, 2, 3]
   \<and> fst (handler ex_env ex_cfg ex_world (ex_chunk ''a_b'' ''a.bin'' ''bytes 0-2/4'' ''false'' [1, 2]))
     = Res_json_success
   \<and> tmpdir (snd (handler ex_env ex_cfg ex_world
        (ex_chunk ''a_b'' ''a.bin'' ''bytes 0-2/4'' ''false'' [1, 2])))
       = [chunk_file ''a_b'' (0, 2, [1, 2])]
   \<and> map read_chunk [''zipline_partial_a_b_0_2'', ''zipline_partial_a_b_2_4'']
       = [(NaN, Num 0, ''zipline_partial_a_b_0_2''), (NaN, Num 2, ''zipline_partial_a_b_2_4'')]
   \<and> fst (handler ex_env ex_cfg
            (snd (handler ex_env ex_cfg ex_world
                    (ex_chunk ''a_b'' ''a.bin'' ''bytes 0-2/4'' ''false'' [1, 2])))
            (ex_chunk ''a_b'' ''a.bin'' ''bytes 2-4/4'' ''true'' [3, 4]))
       = Res_json_files [''http://example.org/u/00.bin''] None
   \<and> datasource (snd (handler ex_env ex_cfg
            (snd (handler ex_env ex_cfg ex_world
                    (ex_chunk ''a_b'' ''a.bin'' ''bytes 0-2/4'' ''false'' [1, 2])))
            (ex_chunk ''a_b'' ''a.bin'' ''bytes 2-4/4'' ''true'' [3, 4])))
       = [(''00.bin'', [3, 4, 0, 0])]"
  by code_simp

end
